theory Spec2Isabelle
  imports Complex_Main "HOL-Library.AList" "HOL-Library.List_Lexorder" "HOL-Library.Char_ord"
  "HOL-Library.Sublist"
begin

section \<open>Python values shared by both subsystems\<close>

text \<open>
  Exceptions are values: the class that matters for the handlers of the source, and the
  text that \<^verbatim>\<open>str(e)\<close> gives. \<open>Exception\<close> stands for any exception a step or a
  tool operation raises (all of them are caught as \<^verbatim>\<open>except Exception\<close>).
  Python floats (times, delays) are idealised as reals; a dict is an association list in
  insertion order, written with \<open>AList.update\<close> (an existing key keeps its place, a new
  key goes last) and read with \<open>map_of\<close>.
\<close>

datatype exn =
    Exception string
  | ValueError string
  | TypeError string
  | AttributeError string
  | KeyError string

fun str_exn :: "exn \<Rightarrow> string" where
  "str_exn (Exception m) = m"
| "str_exn (ValueError m) = m"
| "str_exn (TypeError m) = m"
| "str_exn (AttributeError m) = m"
| "str_exn (KeyError k) = [CHR 0x27] @ k @ [CHR 0x27]"

text \<open>\<^verbatim>\<open>str(last_exception)\<close> where \<^verbatim>\<open>last_exception\<close> may still be \<^verbatim>\<open>None\<close>.\<close>

definition str_opt_exn :: "exn option \<Rightarrow> string" where
  "str_opt_exn e = (case e of None \<Rightarrow> ''None'' | Some x \<Rightarrow> str_exn x)"

text \<open>\<^verbatim>\<open>sep.join(items)\<close>.\<close>

fun join :: "string \<Rightarrow> string list \<Rightarrow> string" where
  "join sep [] = []"
| "join sep [x] = x"
| "join sep (x # y # ys) = x @ sep @ join sep (y # ys)"

text \<open>
  Library functions the source calls and this development does not interpret:
  \<^verbatim>\<open>hashlib.md5(s.encode()).hexdigest()\<close>, the JSON text of one parameter value
  (\<open>None\<close> when \<^verbatim>\<open>json.dumps\<close> raises \<^verbatim>\<open>TypeError\<close> on it), the JSON text of a
  dict key, and the text of a float inside an f-string.
\<close>

record 'v pylib =
  md5_hexdigest :: "string \<Rightarrow> string"
  json_value :: "'v \<Rightarrow> string option"
  json_string :: "string \<Rightarrow> string"
  str_float :: "real \<Rightarrow> string"

section \<open>Tool invocation layer (src/tools/base.py)\<close>

datatype ToolStatus = Tool_IDLE | Tool_RUNNING | Tool_COMPLETED | Tool_FAILED | Tool_TIMEOUT

record 'r ToolResult =
  tool_name :: string
  status :: ToolStatus
  result :: "'r option"
  error :: "string option"
  execution_time :: real
  metadata :: "(string \<times> 'r) list"

text \<open>
  \<^verbatim>\<open>ToolResult(tool_name=n, status=s, error=e)\<close>: the other fields take their defaults,
  and \<^verbatim>\<open>__post_init__\<close> replaces the \<^verbatim>\<open>None\<close> metadata by an empty dict.
\<close>

definition ToolResult_error :: "string \<Rightarrow> ToolStatus \<Rightarrow> string \<Rightarrow> 'r ToolResult" where
  "ToolResult_error n s e =
     \<lparr> tool_name = n, status = s, result = None, error = Some e,
       execution_time = 0, metadata = [] \<rparr>"

record ToolConfig =
  timeout :: real
  max_retries :: int
  retry_delay :: real
  cache_enabled :: bool
  cache_ttl :: int

text \<open>
  One awaited call of the wrapped operation \<^verbatim>\<open>self.execute(**kwargs)\<close> under
  \<^verbatim>\<open>asyncio.wait_for\<close>: it returns a result, raises, or is cut off by the per-attempt
  timeout.
\<close>

datatype 'r op_outcome = Op_Returns "'r ToolResult" | Op_Raises string | Op_TimesOut

datatype hook_result = Hook_Returns | Hook_Raises string

text \<open>
  A tool instance. \<open>execute\<close> is the abstract method a subclass supplies: its first
  argument is the number of calls made to it before this one, so that an operation may
  answer differently each time. \<open>executions\<close> counts those calls (it is not a field of
  the source; it makes "the operation was not executed" a statement about the state).
  \<open>cleanup\<close> is what the subclass's release hook does when awaited; \<^verbatim>\<open>BaseTool.cleanup\<close>
  itself is \<open>Hook_Returns\<close>.
\<close>

record ('v, 'r) BaseTool =
  name :: string
  config :: ToolConfig
  cache :: "(string \<times> 'r ToolResult) list"
  cache_timestamps :: "(string \<times> real) list"
  execute :: "nat \<Rightarrow> (string \<times> 'v) list \<Rightarrow> 'r op_outcome"
  executions :: nat
  cleanup :: hook_result

text \<open>\<^verbatim>\<open>BaseTool.__init__\<close> with an explicit configuration.\<close>

definition BaseTool_init ::
  "string \<Rightarrow> ToolConfig \<Rightarrow> (nat \<Rightarrow> (string \<times> 'v) list \<Rightarrow> 'r op_outcome) \<Rightarrow> hook_result
     \<Rightarrow> ('v, 'r) BaseTool" where
  "BaseTool_init n c ex h =
     \<lparr> name = n, config = c, cache = [], cache_timestamps = [], execute = ex,
       executions = 0, cleanup = h \<rparr>"

subsection \<open>Retry loop\<close>

text \<open>
  \<^verbatim>\<open>execute_with_retry\<close>: the list is what is left of \<^verbatim>\<open>range(max_retries + 1)\<close>, the
  option is \<^verbatim>\<open>last_exception\<close>. The back-off sleep before a retry changes no value and is
  left out. Only the \<^verbatim>\<open>except Exception\<close> branch has the \<^verbatim>\<open>break\<close>.
\<close>

fun retry_attempts ::
  "'v pylib \<Rightarrow> ('v, 'r) BaseTool \<Rightarrow> (string \<times> 'v) list \<Rightarrow> nat list \<Rightarrow> exn option
     \<Rightarrow> 'r ToolResult \<times> ('v, 'r) BaseTool" where
  "retry_attempts lib self kwargs [] last_exception =
     (ToolResult_error (name self) Tool_FAILED (str_opt_exn last_exception), self)"
| "retry_attempts lib self kwargs (attempt # rest) last_exception =
     (let self' = self\<lparr> executions := Suc (executions self) \<rparr> in
      case execute self (executions self) kwargs of
        Op_Returns r \<Rightarrow> (r, self')
      | Op_TimesOut \<Rightarrow>
          retry_attempts lib self' kwargs rest
            (Some (Exception (''Tool '' @ name self @ '' timed out after ''
                                @ str_float lib (ToolConfig.timeout (config self)) @ ''s'')))
      | Op_Raises m \<Rightarrow>
          (if int attempt = ToolConfig.max_retries (config self)
           then (ToolResult_error (name self) Tool_FAILED (str_opt_exn (Some (Exception m))), self')
           else retry_attempts lib self' kwargs rest (Some (Exception m))))"

definition execute_with_retry ::
  "'v pylib \<Rightarrow> ('v, 'r) BaseTool \<Rightarrow> (string \<times> 'v) list \<Rightarrow> 'r ToolResult \<times> ('v, 'r) BaseTool" where
  "execute_with_retry lib self kwargs =
     retry_attempts lib self kwargs [0 ..< nat (ToolConfig.max_retries (config self) + 1)] None"

subsection \<open>Cache\<close>

text \<open>
  \<^verbatim>\<open>json.dumps(d, sort_keys=True)\<close> of a dict with string keys: the items in key order,
  each as \<^verbatim>\<open>"key": value\<close>, joined by a comma and a space inside braces.
\<close>

fun json_items :: "'v pylib \<Rightarrow> (string \<times> 'v) list \<Rightarrow> string list option" where
  "json_items lib [] = Some []"
| "json_items lib ((k, v) # rest) =
     (case json_value lib v of
        None \<Rightarrow> None
      | Some s \<Rightarrow>
          (case json_items lib rest of
             None \<Rightarrow> None
           | Some items \<Rightarrow> Some ((json_string lib k @ '': '' @ s) # items)))"

definition json_dumps_sorted :: "'v pylib \<Rightarrow> (string \<times> 'v) list \<Rightarrow> exn + string" where
  "json_dumps_sorted lib d =
     (case json_items lib (sort_key fst d) of
        None \<Rightarrow> Inl (TypeError ''Object is not JSON serializable'')
      | Some items \<Rightarrow> Inr (''{'' @ join '', '' items @ ''}''))"

text \<open>
  \<^verbatim>\<open>_get_cache_key\<close>. The keyword arguments arrive as a dict, so their keys are distinct
  and \<^verbatim>\<open>sorted(kwargs.items())\<close> orders the pairs by key alone.
\<close>

definition get_cache_key :: "'v pylib \<Rightarrow> ('v, 'r) BaseTool \<Rightarrow> (string \<times> 'v) list \<Rightarrow> exn + string" where
  "get_cache_key lib self kwargs =
     (let sorted_kwargs = sort_key fst kwargs in
      case json_dumps_sorted lib sorted_kwargs of
        Inl e \<Rightarrow> Inl e
      | Inr js \<Rightarrow> Inr (md5_hexdigest lib (name self @ '':'' @ js)))"

text \<open>\<^verbatim>\<open>_is_cache_valid\<close>; \<open>now\<close> is what \<^verbatim>\<open>time.time()\<close> returns at the lookup.\<close>

definition is_cache_valid :: "('v, 'r) BaseTool \<Rightarrow> real \<Rightarrow> string \<Rightarrow> bool" where
  "is_cache_valid self now cache_key =
     (if \<not> cache_enabled (config self) then False
      else case map_of (cache_timestamps self) cache_key of
             None \<Rightarrow> False
           | Some ts \<Rightarrow> now - ts < real_of_int (cache_ttl (config self)))"

text \<open>\<^verbatim>\<open>_get_cached_result\<close>; \<^verbatim>\<open>self._cache[cache_key]\<close> raises on a missing key.\<close>

definition get_cached_result ::
  "('v, 'r) BaseTool \<Rightarrow> real \<Rightarrow> string \<Rightarrow> exn + 'r ToolResult option" where
  "get_cached_result self now cache_key =
     (if is_cache_valid self now cache_key
      then (case map_of (cache self) cache_key of
              None \<Rightarrow> Inl (KeyError cache_key)
            | Some r \<Rightarrow> Inr (Some r))
      else Inr None)"

text \<open>\<^verbatim>\<open>_cache_result\<close>; \<open>later\<close> is \<^verbatim>\<open>time.time()\<close> when the result is stored.\<close>

definition cache_result ::
  "('v, 'r) BaseTool \<Rightarrow> real \<Rightarrow> string \<Rightarrow> 'r ToolResult \<Rightarrow> ('v, 'r) BaseTool" where
  "cache_result self later cache_key r =
     (if cache_enabled (config self)
      then self\<lparr> cache := AList.update cache_key r (cache self),
                 cache_timestamps := AList.update cache_key later (cache_timestamps self) \<rparr>
      else self)"

text \<open>
  \<^verbatim>\<open>BaseTool.__call__\<close>. A \<^verbatim>\<open>ToolResult\<close> object is always truthy, so
  \<^verbatim>\<open>if cached_result\<close> tests for \<^verbatim>\<open>None\<close>.
\<close>

definition call ::
  "'v pylib \<Rightarrow> ('v, 'r) BaseTool \<Rightarrow> real \<Rightarrow> real \<Rightarrow> (string \<times> 'v) list
     \<Rightarrow> exn + ('r ToolResult \<times> ('v, 'r) BaseTool)" where
  "call lib self now later kwargs =
     (case get_cache_key lib self kwargs of
        Inl e \<Rightarrow> Inl e
      | Inr cache_key \<Rightarrow>
          (case get_cached_result self now cache_key of
             Inl e \<Rightarrow> Inl e
           | Inr (Some cached_result) \<Rightarrow> Inr (cached_result, self)
           | Inr None \<Rightarrow>
               (case execute_with_retry lib self kwargs of
                  (r, self') \<Rightarrow>
                    if ToolResult.status r = Tool_COMPLETED
                    then Inr (r, cache_result self' later cache_key r)
                    else Inr (r, self'))))"

subsection \<open>Tool registry\<close>

record ('v, 'r) ToolRegistry =
  tools :: "(string \<times> ('v, 'r) BaseTool) list"

definition ToolRegistry_init :: "('v, 'r) ToolRegistry" where
  "ToolRegistry_init = \<lparr> tools = [] \<rparr>"

definition register :: "('v, 'r) ToolRegistry \<Rightarrow> ('v, 'r) BaseTool \<Rightarrow> ('v, 'r) ToolRegistry" where
  "register reg tool = reg\<lparr> tools := AList.update (name tool) tool (tools reg) \<rparr>"

definition get :: "('v, 'r) ToolRegistry \<Rightarrow> string \<Rightarrow> ('v, 'r) BaseTool option" where
  "get reg n = map_of (tools reg) n"

definition list_tools :: "('v, 'r) ToolRegistry \<Rightarrow> string list" where
  "list_tools reg = map fst (tools reg)"

text \<open>
  Binding the arguments of a call \<^verbatim>\<open>f(..., **kwargs)\<close> whose positional arguments have
  filled the parameters \<open>params\<close> of \<^verbatim>\<open>f\<close>: the first keyword that names one of them
  gives it a second value, which is a \<^verbatim>\<open>TypeError\<close> raised before the body of \<^verbatim>\<open>f\<close>
  runs. The other keywords go to \<^verbatim>\<open>**kwargs\<close>.
\<close>

definition bind_keywords :: "string \<Rightarrow> string list \<Rightarrow> (string \<times> 'v) list \<Rightarrow> exn option" where
  "bind_keywords f params kwargs =
     (case find (\<lambda>k. k \<in> set params) (map fst kwargs) of
        None \<Rightarrow> None
      | Some k \<Rightarrow>
          Some (TypeError (f @ ''() got multiple values for argument ''
                  @ [CHR 0x27] @ k @ [CHR 0x27])))"

text \<open>
  \<^verbatim>\<open>execute_tool(self, name, **kwargs)\<close>, called as the repository calls it, with the
  registry and the name in position and the tool's parameters as keywords. The tool
  object found is called and, being mutable, keeps its new cache in the registry.
\<close>

definition execute_tool ::
  "'v pylib \<Rightarrow> ('v, 'r) ToolRegistry \<Rightarrow> real \<Rightarrow> real \<Rightarrow> string \<Rightarrow> (string \<times> 'v) list
     \<Rightarrow> exn + ('r ToolResult \<times> ('v, 'r) ToolRegistry)" where
  "execute_tool lib reg now later n kwargs =
     (case bind_keywords ''ToolRegistry.execute_tool'' [''self'', ''name''] kwargs of
        Some e \<Rightarrow> Inl e
      | None \<Rightarrow>
          (case get reg n of
             None \<Rightarrow> Inr (ToolResult_error n Tool_FAILED (''Tool '' @ n @ '' not found''), reg)
           | Some tool \<Rightarrow>
               (case call lib tool now later kwargs of
                  Inl e \<Rightarrow> Inl e
                | Inr (r, tool') \<Rightarrow> Inr (r, reg\<lparr> tools := AList.update n tool' (tools reg) \<rparr>))))"

text \<open>
  \<^verbatim>\<open>cleanup_all\<close>: the loop awaits each hook in dict order with no handler around it.
  The result lists the tools whose hook was awaited and the exception that ended the
  loop, if one did.
\<close>

fun cleanup_loop :: "(string \<times> ('v, 'r) BaseTool) list \<Rightarrow> string list \<times> exn option" where
  "cleanup_loop [] = ([], None)"
| "cleanup_loop ((n, tool) # rest) =
     (case cleanup tool of
        Hook_Raises m \<Rightarrow> ([n], Some (Exception m))
      | Hook_Returns \<Rightarrow> (case cleanup_loop rest of (invoked, e) \<Rightarrow> (n # invoked, e)))"

definition cleanup_all :: "('v, 'r) ToolRegistry \<Rightarrow> string list \<times> exn option" where
  "cleanup_all reg = cleanup_loop (tools reg)"

section \<open>Step base class (src/agents/base.py)\<close>

text \<open>
  What an instance of \<^verbatim>\<open>ToolRegistry\<close> answers to: the two attributes set by
  \<^verbatim>\<open>__init__\<close> and the methods of the class.
\<close>

definition ToolRegistry_attributes :: "string list" where
  "ToolRegistry_attributes =
     [''tools'', ''logger'', ''register'', ''get'', ''list_tools'', ''execute_tool'', ''cleanup_all'']"

text \<open>Attribute access \<^verbatim>\<open>registry.attr\<close> on a \<^verbatim>\<open>ToolRegistry\<close> instance.\<close>

definition ToolRegistry_getattr :: "string \<Rightarrow> exn + string" where
  "ToolRegistry_getattr attr =
     (if attr \<in> set ToolRegistry_attributes then Inr attr
      else Inl (AttributeError ([CHR 0x27] @ ''ToolRegistry'' @ [CHR 0x27]
                  @ '' object has no attribute '' @ [CHR 0x27] @ attr @ [CHR 0x27])))"

record ('c, 'v, 'r) BaseAgent =
  agent_id :: string
  config :: "(string \<times> 'c) list"
  tool_registry :: "('v, 'r) ToolRegistry option"

text \<open>\<^verbatim>\<open>BaseAgent.__init__\<close>: \<^verbatim>\<open>config or {}\<close>.\<close>

definition BaseAgent_init ::
  "string \<Rightarrow> (string \<times> 'c) list option \<Rightarrow> ('v, 'r) ToolRegistry option \<Rightarrow> ('c, 'v, 'r) BaseAgent" where
  "BaseAgent_init aid cfg reg =
     \<lparr> agent_id = aid, config = (case cfg of None \<Rightarrow> [] | Some c \<Rightarrow> c), tool_registry = reg \<rparr>"

text \<open>
  \<^verbatim>\<open>BaseAgent.get_tool\<close>. A registry object is truthy (the class defines neither
  \<^verbatim>\<open>__bool__\<close> nor \<^verbatim>\<open>__len__\<close>), so the test is for \<^verbatim>\<open>None\<close>. The call
  \<^verbatim>\<open>self.tool_registry.get_tool(tool_name)\<close> first resolves the attribute
  \<^verbatim>\<open>get_tool\<close> on the registry.
\<close>

definition get_tool ::
  "('c, 'v, 'r) BaseAgent \<Rightarrow> string \<Rightarrow> exn + ('v, 'r) BaseTool option" where
  "get_tool self tname =
     (case tool_registry self of
        None \<Rightarrow> Inr None
      | Some reg \<Rightarrow>
          (case ToolRegistry_getattr ''get_tool'' of
             Inl e \<Rightarrow> Inl e
           | Inr m \<Rightarrow> Inr (get reg tname)))"

section \<open>Execution engine (src/core/models.py, src/core/orchestrator.py)\<close>

datatype AgentStatus =
  Agent_PENDING | Agent_RUNNING | Agent_COMPLETED | Agent_FAILED | Agent_TIMEOUT | Agent_RETRYING

datatype TaskStatus =
  Task_PENDING | Task_RUNNING | Task_COMPLETED | Task_FAILED | Task_CANCELLED

record 'v AgentResult =
  agent_id :: string
  task_id :: string
  status :: AgentStatus
  result :: "'v option"
  error :: "string option"
  execution_time :: real
  retry_count :: int
  metadata :: "(string \<times> 'v) list option"

record TaskConfig =
  timeout :: real
  max_retries :: int
  retry_delay :: real
  retry_backoff :: real
  concurrent_agents :: int

text \<open>The values the engine and the steps put into \<^verbatim>\<open>execution_metadata\<close>.\<close>

datatype 'v meta = Meta_Str string | Meta_Status TaskStatus | Meta_Float real | Meta_Any 'v

record 'v AgentState =
  task_id :: string
  agent_results :: "(string \<times> 'v AgentResult) list"
  shared_data :: "(string \<times> 'v) list"
  execution_metadata :: "(string \<times> 'v meta) list"

text \<open>
  One awaited call of a step's \<^verbatim>\<open>execute(state)\<close>: how long it ran, and whether it
  returned or raised (with the text of the exception). The state object is mutable and
  the steps of the repository change it in place and return it, so both outcomes carry
  what the state holds afterwards.
\<close>

datatype 'v attempt =
    Returns real "'v AgentState"
  | Raises real string "'v AgentState"

text \<open>
  The \<^verbatim>\<open>cleanup\<close> attribute of a step object: absent (\<^verbatim>\<open>BaseAgent\<close> defines none), or
  a coroutine method that returns or raises when awaited.
\<close>

datatype hook = No_Hook | Hook hook_result

text \<open>
  A registered step class, as it behaves once the engine has instantiated it with its
  configuration and tool registry. The first argument of \<open>execute\<close> is the number of
  calls made to it before on this instance.
\<close>

record 'v agent_class =
  class_name :: string
  execute :: "nat \<Rightarrow> 'v AgentState \<Rightarrow> 'v attempt"
  cleanup :: hook

record 'v AgentOrchestrator =
  config :: TaskConfig
  agents :: "(string \<times> 'v agent_class) list"

definition register_agent ::
  "'v AgentOrchestrator \<Rightarrow> 'v agent_class \<Rightarrow> string \<Rightarrow> 'v AgentOrchestrator" where
  "register_agent self cls aid = self\<lparr> agents := AList.update aid cls (agents self) \<rparr>"

subsection \<open>What a run does, in order\<close>

text \<open>
  The engine's observable actions. Each entry of a log pairs an action with the content
  of the state object when the action begins. \<open>Blocked\<close> is an attempt to enter
  \<^verbatim>\<open>async with self.semaphore\<close> on a semaphore created with no slot: it never resumes.
\<close>

datatype event =
    Started string
  | Slept string real
  | Blocked string
  | Executed string nat real
  | Cleaned string

type_synonym 'v log = "(event \<times> 'v AgentState) list"

text \<open>Seconds an action takes; a sleep of a non-positive delay returns at once.\<close>

fun duration :: "event \<Rightarrow> real" where
  "duration (Started a) = 0"
| "duration (Slept a d) = max 0 d"
| "duration (Blocked a) = 0"
| "duration (Executed a n d) = max 0 d"
| "duration (Cleaned a) = 0"

fun blocks :: "event \<Rightarrow> bool" where
  "blocks (Blocked a) = True"
| "blocks e = False"

definition elapsed :: "'v log \<Rightarrow> real" where
  "elapsed lg = sum_list (map (duration \<circ> fst) lg)"


text \<open>The step an action belongs to.\<close>

fun actor :: "event \<Rightarrow> string" where
  "actor (Started a) = a"
| "actor (Slept a d) = a"
| "actor (Blocked a) = a"
| "actor (Executed a n d) = a"
| "actor (Cleaned a) = a"

subsection \<open>Per-step retry\<close>

datatype 'v retry_outcome =
    Retry_Returned "'v AgentState"
  | Retry_Raised exn "'v AgentState"
  | Retry_Blocked "'v AgentState"

text \<open>
  The loop of \<^verbatim>\<open>_execute_agent_with_retry\<close>: the list is what is left of
  \<^verbatim>\<open>range(self.config.max_retries + 1)\<close>, the option is \<^verbatim>\<open>last_exception\<close>. The
  configuration read is the engine's own (\<^verbatim>\<open>self.config\<close>). The result carries the
  \<^verbatim>\<open>agent_result\<close> object as the loop leaves it, and the log of the loop. Raising
  \<^verbatim>\<open>None\<close> after an empty range is a \<^verbatim>\<open>TypeError\<close>. With no other task in
  flight every slot of the semaphore is free, so entering it blocks exactly when it was
  created with none.
\<close>

fun attempts ::
  "TaskConfig \<Rightarrow> string \<Rightarrow> 'v agent_class \<Rightarrow> nat list \<Rightarrow> exn option \<Rightarrow> 'v AgentState
     \<Rightarrow> 'v AgentResult \<Rightarrow> 'v retry_outcome \<times> 'v AgentResult \<times> 'v log" where
  "attempts cfg aid agent [] last_exception st agent_result =
     (case last_exception of
        None \<Rightarrow> (Retry_Raised (TypeError ''exceptions must derive from BaseException'') st,
                 agent_result, [])
      | Some e \<Rightarrow> (Retry_Raised e st, agent_result, []))"
| "attempts cfg aid agent (attempt # rest) last_exception st agent_result =
     (let agent_result' =
            (if 0 < attempt
             then agent_result\<lparr> AgentResult.status := Agent_RETRYING,
                                retry_count := int attempt \<rparr>
             else agent_result);
          delay = TaskConfig.retry_delay cfg * retry_backoff cfg ^ (attempt - 1);
          slept = (if 0 < attempt then [(Slept aid delay, st)] else [])
      in if concurrent_agents cfg \<le> 0
         then (Retry_Blocked st, agent_result', slept @ [(Blocked aid, st)])
         else
           (case agent_class.execute agent attempt st of
              Returns d st' \<Rightarrow>
                (Retry_Returned st', agent_result', slept @ [(Executed aid attempt d, st)])
            | Raises d m st' \<Rightarrow>
                (if int attempt = TaskConfig.max_retries cfg
                 then (Retry_Raised (Exception m) st', agent_result',
                       slept @ [(Executed aid attempt d, st)])
                 else
                   (case attempts cfg aid agent rest (Some (Exception m)) st' agent_result' of
                      (out, agent_result'', lg) \<Rightarrow>
                        (out, agent_result'', slept @ (Executed aid attempt d, st) # lg)))))"

definition execute_agent_with_retry ::
  "'v AgentOrchestrator \<Rightarrow> string \<Rightarrow> 'v agent_class \<Rightarrow> 'v AgentState \<Rightarrow> 'v AgentResult
     \<Rightarrow> 'v retry_outcome \<times> 'v AgentResult \<times> 'v log" where
  "execute_agent_with_retry self aid agent st agent_result =
     attempts (AgentOrchestrator.config self) aid agent
       [0 ..< nat (TaskConfig.max_retries (AgentOrchestrator.config self) + 1)]
       None st agent_result"

subsection \<open>One node of the plan\<close>

datatype 'v node_outcome =
    Node_Returns "'v AgentState"
  | Node_Raises exn "'v AgentState"
  | Node_Blocked "'v AgentState"

text \<open>
  The \<^verbatim>\<open>finally\<close> clause of a node, \<^verbatim>\<open>await agent.cleanup()\<close>: looking the attribute up
  fails when the class has none; otherwise the hook is awaited, and an exception it
  raises replaces whatever the node was about to do.
\<close>

definition finally_cleanup ::
  "string \<Rightarrow> 'v agent_class \<Rightarrow> 'v AgentState \<Rightarrow> 'v node_outcome \<Rightarrow> 'v node_outcome \<times> 'v log" where
  "finally_cleanup aid agent st out =
     (case agent_class.cleanup agent of
        No_Hook \<Rightarrow>
          (Node_Raises (AttributeError ([CHR 0x27] @ class_name agent @ [CHR 0x27]
                          @ '' object has no attribute '' @ [CHR 0x27] @ ''cleanup'' @ [CHR 0x27])) st,
           [])
      | Hook Hook_Returns \<Rightarrow> (out, [(Cleaned aid, st)])
      | Hook (Hook_Raises m) \<Rightarrow> (Node_Raises (Exception m) st, [(Cleaned aid, st)]))"

text \<open>
  \<^verbatim>\<open>agent_node\<close>, the closure \<^verbatim>\<open>_create_agent_node\<close> returns. \<^verbatim>\<open>execution_time\<close> is
  the time between the two readings of the clock, the time the retry loop took.
\<close>

definition agent_node ::
  "'v AgentOrchestrator \<Rightarrow> string \<Rightarrow> 'v AgentState \<Rightarrow> 'v node_outcome \<times> 'v log" where
  "agent_node self aid st =
     (case map_of (agents self) aid of
        None \<Rightarrow> (Node_Raises (KeyError aid) st, [])
      | Some agent \<Rightarrow>
          (let agent_result =
                 \<lparr> AgentResult.agent_id = aid, task_id = AgentState.task_id st,
                   status = Agent_RUNNING, result = None, error = None, execution_time = 0,
                   retry_count = 0, metadata = None \<rparr>
           in case execute_agent_with_retry self aid agent st agent_result of
                (Retry_Returned result_state, ar, lg) \<Rightarrow>
                  (let ar' = ar\<lparr> AgentResult.execution_time := elapsed lg,
                                  AgentResult.status := Agent_COMPLETED,
                                  AgentResult.result :=
                                    map_of (shared_data result_state) (aid @ ''_result'') \<rparr>;
                       st' = result_state\<lparr> agent_results :=
                               AList.update aid ar' (agent_results result_state) \<rparr>
                   in case finally_cleanup aid agent st' (Node_Returns st') of
                        (out, cl) \<Rightarrow> (out, (Started aid, st) # lg @ cl))
              | (Retry_Raised e st1, ar, lg) \<Rightarrow>
                  (let ar' = ar\<lparr> AgentResult.execution_time := elapsed lg,
                                  AgentResult.status := Agent_FAILED,
                                  AgentResult.error := Some (str_exn e) \<rparr>;
                       st' = st1\<lparr> agent_results := AList.update aid ar' (agent_results st1),
                                  execution_metadata :=
                                    AList.update ''error'' (Meta_Str (str_exn e))
                                      (execution_metadata st1) \<rparr>
                   in case finally_cleanup aid agent st' (Node_Raises e st') of
                        (out, cl) \<Rightarrow> (out, (Started aid, st) # lg @ cl))
              | (Retry_Blocked st1, ar, lg) \<Rightarrow> (Node_Blocked st1, (Started aid, st) # lg)))"

subsection \<open>The graph library\<close>

text \<open>
  The plan is built and run by the \<^verbatim>\<open>langgraph\<close> package, which is not part of the
  repository. What the engine meets of it is taken as a parameter: the text of the
  \<^verbatim>\<open>ValueError\<close> with which \<^verbatim>\<open>add_node\<close> refuses a node name, given the names added
  before it; the text of the \<^verbatim>\<open>ValueError\<close> with which the chain of edges over the nodes
  added is refused when it is compiled; and whether the mapping \<^verbatim>\<open>ainvoke\<close> returns
  takes attributes (the \<^verbatim>\<open>AddableValuesDict\<close> that \<^verbatim>\<open>src/api/routes.py\<close> reads
  does, a plain \<^verbatim>\<open>dict\<close> does not).
\<close>

record graphlib =
  add_node :: "string list \<Rightarrow> string \<Rightarrow> string option"
  compile :: "string list \<Rightarrow> string option"
  takes_attributes :: bool

subsection \<open>The plan\<close>

text \<open>
  The first loop of \<^verbatim>\<open>_build_agent_graph\<close>; \<open>nodes\<close> are the names added so far. A name
  is tested for registration and then added, before the next name is looked at.
\<close>

fun add_nodes ::
  "graphlib \<Rightarrow> 'v AgentOrchestrator \<Rightarrow> string list \<Rightarrow> string list \<Rightarrow> exn + string list" where
  "add_nodes lib self nodes [] = Inr nodes"
| "add_nodes lib self nodes (aid # rest) =
     (if map_of (agents self) aid = None
      then Inl (ValueError (''Agent '' @ aid @ '' not registered''))
      else (case add_node lib nodes aid of
              Some msg \<Rightarrow> Inl (ValueError msg)
            | None \<Rightarrow> add_nodes lib self (nodes @ [aid]) rest))"

text \<open>
  \<^verbatim>\<open>_build_agent_graph\<close>: the nodes, then the edges from \<^verbatim>\<open>__start__\<close> along the
  sequence to \<^verbatim>\<open>__end__\<close>, then \<^verbatim>\<open>compile\<close>. The compiled graph of that chain is
  the list of its nodes, in order.
\<close>

definition build_agent_graph ::
  "graphlib \<Rightarrow> 'v AgentOrchestrator \<Rightarrow> string list \<Rightarrow> exn + string list" where
  "build_agent_graph lib self agent_sequence =
     (case add_nodes lib self [] agent_sequence of
        Inl e \<Rightarrow> Inl e
      | Inr nodes \<Rightarrow>
          (case compile lib nodes of
             Some msg \<Rightarrow> Inl (ValueError msg)
           | None \<Rightarrow> Inr nodes))"

text \<open>
  \<^verbatim>\<open>graph.ainvoke(state)\<close> on a chain: the nodes run in order, each on the state the
  one before returned; a node that raises ends the run. A node is awaited by the run,
  so what it raises comes out of \<^verbatim>\<open>ainvoke\<close>. The library gives every node a state
  object of its own, built from the values the node before returned: what the nodes
  write does not reach the object \<^verbatim>\<open>execute_task\<close> passed in.
\<close>

fun ainvoke :: "'v AgentOrchestrator \<Rightarrow> string list \<Rightarrow> 'v AgentState \<Rightarrow> 'v node_outcome \<times> 'v log" where
  "ainvoke self [] st = (Node_Returns st, [])"
| "ainvoke self (aid # rest) st =
     (case agent_node self aid st of
        (Node_Returns st', lg) \<Rightarrow>
          (case ainvoke self rest st' of (out, lg') \<Rightarrow> (out, lg @ lg'))
      | (out, lg) \<Rightarrow> (out, lg))"

subsection \<open>The whole-task deadline\<close>

text \<open>
  The actions of a run replayed against the clock, up to \<open>t\<close> seconds: the run is
  interrupted in the first action that has not ended when \<open>t\<close> seconds have gone by, or
  that never ends. The result is the time used when every action ends in time, or the
  interrupted action with the content of the state object when it began; with it, the
  actions that had begun. An action that takes time is taken to be suspended at an
  \<^verbatim>\<open>await\<close> while the time passes, as a sleep is, so that it can be interrupted.
\<close>

fun deadline :: "real \<Rightarrow> real \<Rightarrow> 'v log \<Rightarrow> (real + event \<times> 'v AgentState) \<times> 'v log" where
  "deadline t used [] = (Inl used, [])"
| "deadline t used ((ev, st) # rest) =
     (if blocks ev then (Inr (ev, st), [(ev, st)])
      else if used + duration ev < t
      then (case deadline t (used + duration ev) rest of (r, begun) \<Rightarrow> (r, (ev, st) # begun))
      else (Inr (ev, st), [(ev, st)]))"

text \<open>
  A node cancelled while it awaits the action \<open>ev\<close> (a back-off sleep, the semaphore or
  the step's logic): \<^verbatim>\<open>CancelledError\<close> is raised at that \<^verbatim>\<open>await\<close>. It is not an
  \<^verbatim>\<open>Exception\<close>, so neither the retry loop nor the \<^verbatim>\<open>except\<close> clause of the node
  catches it, and the \<^verbatim>\<open>finally\<close> clause of the node runs: looking \<^verbatim>\<open>cleanup\<close> up
  fails when the class has none, and a hook that raises replaces the cancellation by its
  exception. The result is the exception that leaves the node in place of
  \<^verbatim>\<open>CancelledError\<close>, if one does, and the action of the hook. A step's logic is taken
  to let the cancellation through; what it had done to the state by then is unknown,
  and the hook's action is logged with the state as the interrupted action found it.
\<close>

definition cancel_node ::
  "'v AgentOrchestrator \<Rightarrow> event \<Rightarrow> 'v AgentState \<Rightarrow> exn option \<times> 'v log" where
  "cancel_node self ev st =
     (case map_of (agents self) (actor ev) of
        None \<Rightarrow> (None, [])
      | Some agent \<Rightarrow>
          (case agent_class.cleanup agent of
             No_Hook \<Rightarrow>
               (Some (AttributeError ([CHR 0x27] @ class_name agent @ [CHR 0x27]
                        @ '' object has no attribute '' @ [CHR 0x27] @ ''cleanup'' @ [CHR 0x27])),
                [])
           | Hook Hook_Returns \<Rightarrow> (None, [(Cleaned (actor ev), st)])
           | Hook (Hook_Raises m) \<Rightarrow> (Some (Exception m), [(Cleaned (actor ev), st)])))"

datatype 'v awaited =
    Run_Returned "'v AgentState" real
  | Run_Raised exn
  | TimeoutError

text \<open>
  \<^verbatim>\<open>asyncio.wait_for(graph.ainvoke(state), timeout)\<close> over a run given by its outcome
  and its log. A non-positive timeout cancels the run before it has begun. A run that
  ends in time gives its value, with the time used, or its exception. A run interrupted
  by the deadline is cancelled and awaited: when the cancellation comes out of it,
  \<^verbatim>\<open>wait_for\<close> raises \<^verbatim>\<open>TimeoutError\<close>; when another exception comes out, that one is
  raised. The log is that of the actions that began. (A blocked run has a \<open>Blocked\<close>
  action, which no deadline lets end.)
\<close>

definition wait_for ::
  "'v AgentOrchestrator \<Rightarrow> real \<Rightarrow> 'v node_outcome \<times> 'v log \<Rightarrow> 'v awaited \<times> 'v log" where
  "wait_for self t run =
     (if t \<le> 0 then (TimeoutError, [])
      else (case deadline t 0 (snd run) of
              (Inl used, begun) \<Rightarrow>
                (case fst run of
                   Node_Returns st \<Rightarrow> (Run_Returned st used, begun)
                 | Node_Raises e st \<Rightarrow> (Run_Raised e, begun)
                 | Node_Blocked st \<Rightarrow> (TimeoutError, begun))
            | (Inr (ev, st), begun) \<Rightarrow>
                (case cancel_node self ev st of
                   (None, cl) \<Rightarrow> (TimeoutError, begun @ cl)
                 | (Some e, cl) \<Rightarrow> (Run_Raised e, begun @ cl))))"

subsection \<open>Running a task\<close>

text \<open>The two assignments of the \<^verbatim>\<open>except\<close> clauses of \<^verbatim>\<open>execute_task\<close>.\<close>

definition mark_failed :: "string \<Rightarrow> 'v AgentState \<Rightarrow> 'v AgentState" where
  "mark_failed msg st =
     st\<lparr> execution_metadata :=
           AList.update ''status'' (Meta_Status Task_FAILED)
             (AList.update ''error'' (Meta_Str msg) (execution_metadata st)) \<rparr>"

text \<open>\<^verbatim>\<open>config = custom_config or self.config\<close>; a configuration object is truthy.\<close>

definition task_config :: "'v AgentOrchestrator \<Rightarrow> TaskConfig option \<Rightarrow> TaskConfig" where
  "task_config self custom_config =
     (case custom_config of None \<Rightarrow> AgentOrchestrator.config self | Some c \<Rightarrow> c)"

text \<open>The state \<^verbatim>\<open>execute_task\<close> creates; \<^verbatim>\<open>initial_data or {}\<close>.\<close>

definition initial_state :: "string \<Rightarrow> (string \<times> 'v) list option \<Rightarrow> 'v AgentState" where
  "initial_state tid initial_data =
     \<lparr> AgentState.task_id = tid, agent_results = [],
       shared_data = (case initial_data of None \<Rightarrow> [] | Some d \<Rightarrow> d),
       execution_metadata = [] \<rparr>"

text \<open>
  What \<^verbatim>\<open>execute_task\<close> returns: the mapping \<^verbatim>\<open>ainvoke\<close> returned, which holds the
  values of the state after the last node under their four keys, with the attribute
  \<^verbatim>\<open>execution_metadata\<close> that \<^verbatim>\<open>execute_task\<close> has set on it; or, from a handler, the
  state object \<^verbatim>\<open>execute_task\<close> created.
\<close>

datatype 'v returned =
    Returned_Values "'v AgentState" "(string \<times> 'v meta) list"
  | Returned_State "'v AgentState"

text \<open>
  \<^verbatim>\<open>execute_task\<close>. The per-call configuration, when given, replaces the engine's for
  the timeout. Every exit of the source is a \<^verbatim>\<open>return\<close>; the value comes with the log
  of the actions that began. The mapping \<^verbatim>\<open>ainvoke\<close> returns has no attribute
  \<^verbatim>\<open>execution_metadata\<close>, so the source sets one, which raises \<^verbatim>\<open>AttributeError\<close> on
  a mapping that takes none. The handlers mark the state object created at the start,
  which no node has written to. The exceptions of the steps are taken not to be
  \<^verbatim>\<open>TimeoutError\<close>, which the first handler would take for the deadline.
\<close>

definition execute_task ::
  "graphlib \<Rightarrow> 'v AgentOrchestrator \<Rightarrow> string \<Rightarrow> string list \<Rightarrow> (string \<times> 'v) list option
     \<Rightarrow> TaskConfig option \<Rightarrow> 'v returned \<times> 'v log" where
  "execute_task lib self tid agent_sequence initial_data custom_config =
     (let cfg = task_config self custom_config;
          st0 = initial_state tid initial_data
      in case build_agent_graph lib self agent_sequence of
           Inl e \<Rightarrow> (Returned_State (mark_failed (str_exn e) st0), [])
         | Inr graph \<Rightarrow>
             (case wait_for self (TaskConfig.timeout cfg) (ainvoke self graph st0) of
                (TimeoutError, begun) \<Rightarrow> (Returned_State (mark_failed ''Task timeout'' st0), begun)
              | (Run_Raised e, begun) \<Rightarrow> (Returned_State (mark_failed (str_exn e) st0), begun)
              | (Run_Returned st used, begun) \<Rightarrow>
                  (if takes_attributes lib
                   then (Returned_Values st [(''total_execution_time'', Meta_Float used)], begun)
                   else (Returned_State
                           (mark_failed
                              (str_exn (AttributeError
                                 ([CHR 0x27] @ ''dict'' @ [CHR 0x27] @ '' object has no attribute ''
                                    @ [CHR 0x27] @ ''execution_metadata'' @ [CHR 0x27])))
                              st0),
                         begun))))"

subsection \<open>Notions used to state the properties\<close>

text \<open>What the state object holds after a call of a step's logic, when the retry loop ends
  and when a node ends.\<close>

fun outcome_state :: "'v attempt \<Rightarrow> 'v AgentState" where
  "outcome_state (Returns d st) = st"
| "outcome_state (Raises d m st) = st"

fun retry_state :: "'v retry_outcome \<Rightarrow> 'v AgentState" where
  "retry_state (Retry_Returned st) = st"
| "retry_state (Retry_Raised e st) = st"
| "retry_state (Retry_Blocked st) = st"

fun final_state :: "'v node_outcome \<Rightarrow> 'v AgentState" where
  "final_state (Node_Returns st) = st"
| "final_state (Node_Raises e st) = st"
| "final_state (Node_Blocked st) = st"



text \<open>
  The first refusal of the graph library while the names are added in order after
  \<open>nodes\<close>, if it refuses one of them.
\<close>

fun refusal :: "graphlib \<Rightarrow> string list \<Rightarrow> string list \<Rightarrow> string option" where
  "refusal lib nodes [] = None"
| "refusal lib nodes (n # rest) =
     (case add_node lib nodes n of
        Some msg \<Rightarrow> Some msg
      | None \<Rightarrow> refusal lib (nodes @ [n]) rest)"

section \<open>Sequences of invocations, and concrete inputs\<close>

text \<open>
  A tool used several times in a row: each invocation comes with the two readings of the
  clock it makes; one that raises leaves the tool as it was.
\<close>

fun calls ::
  "'v pylib \<Rightarrow> ('v, 'r) BaseTool \<Rightarrow> (real \<times> real \<times> (string \<times> 'v) list) list \<Rightarrow> ('v, 'r) BaseTool" where
  "calls lib self [] = self"
| "calls lib self ((now, later, kwargs) # rest) =
     (case call lib self now later kwargs of
        Inl e \<Rightarrow> calls lib self rest
      | Inr (r, self') \<Rightarrow> calls lib self' rest)"

text \<open>Stand-ins for the library functions, and three tools, used to run the definitions.\<close>

definition demo_lib :: "nat pylib" where
  "demo_lib = \<lparr> md5_hexdigest = (\<lambda>s. s), json_value = (\<lambda>v. Some ''v''),
                json_string = (\<lambda>s. s), str_float = (\<lambda>x. ''30.0'') \<rparr>"

definition demo_config :: ToolConfig where
  "demo_config = \<lparr> ToolConfig.timeout = 30, max_retries = 2, retry_delay = 1, cache_enabled = True,
                   cache_ttl = 300 \<rparr>"

definition demo_result :: "nat \<Rightarrow> nat ToolResult" where
  "demo_result n = \<lparr> tool_name = ''fetch'', status = Tool_COMPLETED, result = Some n,
                      error = None, execution_time = 0, metadata = [] \<rparr>"

definition demo_tool :: "(nat, nat) BaseTool" where
  "demo_tool = BaseTool_init ''fetch'' demo_config (\<lambda>n kwargs. Op_Returns (demo_result n)) Hook_Returns"

definition demo_cached :: "(nat, nat) BaseTool" where
  "demo_cached = demo_tool\<lparr> cache := [(''fetch:{url: v}'', demo_result 0)],
                            cache_timestamps := [(''fetch:{url: v}'', 1)],
                            executions := 1 \<rparr>"

definition demo_db :: "(nat, nat) BaseTool" where
  "demo_db = BaseTool_init ''db'' demo_config (\<lambda>n kwargs. Op_Raises ''no connection'')
               (Hook_Raises ''connection lost'')"

definition demo_llm :: "(nat, nat) BaseTool" where
  "demo_llm = BaseTool_init ''llm'' demo_config (\<lambda>n kwargs. Op_TimesOut) Hook_Returns"

definition demo_registry :: "(nat, nat) ToolRegistry" where
  "demo_registry = register (register (register ToolRegistry_init demo_tool) demo_db) demo_llm"

definition demo_healthy_registry :: "(nat, nat) ToolRegistry" where
  "demo_healthy_registry = register (register ToolRegistry_init demo_tool) demo_llm"

definition demo_later :: "(nat, nat) BaseTool" where
  "demo_later = calls demo_lib demo_cached [(5, 6, [(''id'', 3)])]"

text \<open>
  An engine with the steps of a small plan: \<open>a\<close> succeeds, \<open>b\<close> raises on every call,
  \<open>c\<close> succeeds, \<open>flaky\<close> raises twice and then succeeds, and \<open>data_analyzer\<close> is
  shaped like the repository's own steps: it writes its result and returns, and its class
  has no \<^verbatim>\<open>cleanup\<close>.
\<close>

definition demo_task_config :: TaskConfig where
  "demo_task_config = \<lparr> TaskConfig.timeout = 300, max_retries = 2, retry_delay = 1 / 10,
                        retry_backoff = 2, concurrent_agents = 5 \<rparr>"

definition step_a :: "nat agent_class" where
  "step_a = \<lparr> class_name = ''StepA'',
              execute = (\<lambda>n st. Returns (1 / 100)
                           (st\<lparr> shared_data := AList.update ''a_result'' 1 (shared_data st) \<rparr>)),
              cleanup = Hook Hook_Returns \<rparr>"

definition step_b :: "nat agent_class" where
  "step_b = \<lparr> class_name = ''StepB'',
              execute = (\<lambda>n st. Raises (1 / 100) (if n = 2 then ''gave up'' else ''try again'') st),
              cleanup = Hook Hook_Returns \<rparr>"

definition step_c :: "nat agent_class" where
  "step_c = \<lparr> class_name = ''StepC'',
              execute = (\<lambda>n st. Returns (1 / 100)
                           (st\<lparr> shared_data := AList.update ''c_result'' 3 (shared_data st) \<rparr>)),
              cleanup = Hook Hook_Returns \<rparr>"

definition step_flaky :: "nat agent_class" where
  "step_flaky = \<lparr> class_name = ''Flaky'',
                  execute = (\<lambda>n st. if n < 2 then Raises (1 / 100) ''not yet'' st
                               else Returns (1 / 100)
                                 (st\<lparr> shared_data := AList.update ''flaky_result'' 7 (shared_data st) \<rparr>)),
                  cleanup = Hook Hook_Returns \<rparr>"

definition data_analyzer :: "nat agent_class" where
  "data_analyzer = \<lparr> class_name = ''DataAnalysisAgent'',
                     execute = (\<lambda>n st. Returns (1 / 100)
                                  (st\<lparr> shared_data :=
                                        AList.update ''analysis_complete'' 1
                                          (AList.update ''data_analyzer_result'' 5 (shared_data st)) \<rparr>)),
                     cleanup = No_Hook \<rparr>"

text \<open>
  A graph library for the examples. It refuses a node name that was added before and a
  graph without a node, as \<^verbatim>\<open>langgraph\<close> does and with its texts, and the mapping it
  returns takes attributes, as the \<^verbatim>\<open>AddableValuesDict\<close> named in
  \<^verbatim>\<open>src/api/routes.py\<close> does.
\<close>

definition demo_graphlib :: graphlib where
  "demo_graphlib =
     \<lparr> add_node = (\<lambda>nodes node.
          if node \<in> set nodes then Some (''Node `'' @ node @ ''` already present.'') else None),
       compile = (\<lambda>nodes.
          if nodes = []
          then Some ''Graph must have an entrypoint: add at least one edge from START to another node''
          else None),
       takes_attributes = True \<rparr>"

definition demo_orchestrator :: "nat AgentOrchestrator" where
  "demo_orchestrator =
     register_agent
       (register_agent
          (register_agent
             (register_agent
                (register_agent \<lparr> AgentOrchestrator.config = demo_task_config, agents = [] \<rparr>
                   step_a ''a'')
                step_b ''b'')
             step_c ''c'')
          step_flaky ''flaky'')
       data_analyzer ''data_analyzer''"

text \<open>
  An engine with one step shaped like the repository's \<^verbatim>\<open>ReportGenerationAgent\<close>: it
  awaits a sleep of 0.2 seconds, writes its report and returns, and its class has no
  \<^verbatim>\<open>cleanup\<close>.
\<close>

definition report_generator :: "nat agent_class" where
  "report_generator = \<lparr> class_name = ''ReportGenerationAgent'',
                        execute = (\<lambda>n st. Returns (2 / 10)
                                     (st\<lparr> shared_data :=
                                           AList.update ''final_result'' 9
                                             (AList.update ''report_complete'' 1
                                                (AList.update ''report_generator_result'' 9
                                                   (shared_data st))) \<rparr>)),
                        cleanup = No_Hook \<rparr>"

definition demo_reporting :: "nat AgentOrchestrator" where
  "demo_reporting =
     register_agent \<lparr> AgentOrchestrator.config = demo_task_config, agents = [] \<rparr>
       report_generator ''report_generator''"

section \<open>Properties of the tool layer\<close>

lemmas demo_defs = demo_lib_def demo_tool_def BaseTool_init_def demo_config_def demo_result_def
  demo_cached_def demo_db_def demo_llm_def demo_registry_def demo_healthy_registry_def
  register_def ToolRegistry_init_def demo_later_def

lemmas call_defs = call_def get_cache_key_def json_dumps_sorted_def get_cached_result_def
  is_cache_valid_def execute_with_retry_def cache_result_def upt_conv_Cons

subsection \<open>The cache key\<close>

text \<open>An association list with distinct keys is determined by its keys and its lookups.\<close>

lemma alist_rebuild:
  "distinct (map fst xs) \<Longrightarrow> map (\<lambda>k. (k, the (map_of xs k))) (map fst xs) = xs"
proof (induction xs)
  case Nil
  then show ?case by simp
next
  case (Cons p xs)
  obtain k v where p: "p = (k, v)" by (cases p)
  from Cons.prems p have notin: "k \<notin> fst ` set xs" and d: "distinct (map fst xs)" by auto
  have "map (\<lambda>k'. (k', the (map_of (p # xs) k'))) (map fst xs)
          = map (\<lambda>k'. (k', the (map_of xs k'))) (map fst xs)"
    using notin p by (auto simp: image_iff)
  with Cons.IH [OF d] p show ?case by simp
qed

lemma sort_key_fst_unique:
  fixes p1 p2 :: "(string \<times> 'v) list"
  assumes d1: "distinct (map fst p1)" and d2: "distinct (map fst p2)"
    and eq: "map_of p1 = map_of p2"
  shows "sort_key fst p1 = sort_key fst p2"
proof -
  let ?s1 = "sort_key fst p1" and ?s2 = "sort_key fst p2"
  have ds1: "distinct (map fst ?s1)" and ds2: "distinct (map fst ?s2)"
    using d1 d2 by (simp_all add: distinct_map)
  have sets: "set p1 = set p2"
    using map_of_inject_set [OF d1 d2] eq by simp
  have m1: "map_of ?s1 = map_of p1"
    using map_of_inject_set [OF ds1 d1] by simp
  have m2: "map_of ?s2 = map_of p2"
    using map_of_inject_set [OF ds2 d2] by simp
  have keys: "map fst ?s1 = map fst ?s2"
  proof (rule sorted_distinct_set_unique)
    show "sorted (map fst ?s1)" by simp
    show "sorted (map fst ?s2)" by simp
    show "distinct (map fst ?s1)" by (rule ds1)
    show "distinct (map fst ?s2)" by (rule ds2)
    show "set (map fst ?s1) = set (map fst ?s2)" using sets by simp
  qed
  have "?s1 = map (\<lambda>k. (k, the (map_of ?s1 k))) (map fst ?s1)"
    using alist_rebuild [OF ds1] by simp
  also have "\<dots> = map (\<lambda>k. (k, the (map_of ?s2 k))) (map fst ?s2)"
    using keys m1 m2 eq by simp
  also have "\<dots> = ?s2"
    using alist_rebuild [OF ds2] by simp
  finally show ?thesis .
qed

text \<open>
  Claim C9. Two parameter dicts that are equal as key-value maps get the same cache key,
  in whatever order their parameters were supplied, for tools of the same name: the key
  is a function of the tool name and of the parameters sorted by key and serialised.
\<close>

theorem cache_key_order_independent:
  fixes p1 p2 :: "(string \<times> 'v) list"
  assumes "name self = name self'"
    and "distinct (map fst p1)" and "distinct (map fst p2)"
    and "map_of p1 = map_of p2"
  shows "get_cache_key lib self p1 = get_cache_key lib self' p2"
  using sort_key_fst_unique [OF assms(2-4)] assms(1)
  by (simp add: get_cache_key_def split: sum.splits)

theorem cache_key_order_independent_witness:
  "name demo_tool = name demo_cached
   \<and> distinct (map fst [(''url'', 2::nat), (''method'', 1)])
   \<and> distinct (map fst [(''method'', 1::nat), (''url'', 2)])
   \<and> map_of [(''url'', 2::nat), (''method'', 1)] = map_of [(''method'', 1), (''url'', 2)]
   \<and> get_cache_key demo_lib demo_tool [(''url'', 2), (''method'', 1)]
       = get_cache_key demo_lib demo_cached [(''method'', 1), (''url'', 2)]
   \<and> get_cache_key demo_lib demo_tool [(''url'', 2), (''method'', 1)]
       = Inr ''fetch:{method: v, url: v}''"
proof -
  have n: "name demo_tool = name demo_cached" by (simp add: demo_defs)
  have d1: "distinct (map fst [(''url'', 2::nat), (''method'', 1)])" by simp
  have d2: "distinct (map fst [(''method'', 1::nat), (''url'', 2)])" by simp
  have m: "map_of [(''url'', 2::nat), (''method'', 1)] = map_of [(''method'', 1), (''url'', 2)]"
    by (rule ext) simp
  have v: "get_cache_key demo_lib demo_tool [(''url'', 2), (''method'', 1)]
             = Inr ''fetch:{method: v, url: v}''"
    by (simp add: call_defs demo_defs)
  from n d1 d2 m v cache_key_order_independent [OF n d1 d2 m, of demo_lib]
  show ?thesis by simp
qed

subsection \<open>The cache\<close>

lemma retry_attempts_frame:
  "retry_attempts lib self kwargs as le = (r, self') \<Longrightarrow>
     self' = self\<lparr> executions := executions self' \<rparr> \<and> executions self \<le> executions self'"
proof (induction as arbitrary: self le)
  case Nil
  then show ?case by auto
next
  case (Cons a as)
  show ?case
  proof (cases "BaseTool.execute self (executions self) kwargs")
    case (Op_Returns x)
    with Cons.prems show ?thesis by (auto simp: Let_def)
  next
    case (Op_Raises m)
    show ?thesis
    proof (cases "int a = ToolConfig.max_retries (BaseTool.config self)")
      case True
      with Op_Raises Cons.prems show ?thesis by (auto simp: Let_def)
    next
      case False
      with Op_Raises Cons.prems
      have "retry_attempts lib (self\<lparr> executions := Suc (executions self) \<rparr>) kwargs as
              (Some (Exception m)) = (r, self')"
        by (simp add: Let_def)
      from Cons.IH [OF this] show ?thesis by (cases self, cases self') auto
    qed
  next
    case Op_TimesOut
    with Cons.prems
    have "\<exists>e. retry_attempts lib (self\<lparr> executions := Suc (executions self) \<rparr>) kwargs as e = (r, self')"
      by (auto simp: Let_def)
    then obtain e where
      "retry_attempts lib (self\<lparr> executions := Suc (executions self) \<rparr>) kwargs as e = (r, self')" ..
    from Cons.IH [OF this] show ?thesis by (cases self, cases self') auto
  qed
qed

lemma retry_attempts_executes:
  "retry_attempts lib self kwargs as le = (r, self') \<Longrightarrow> as \<noteq> [] \<Longrightarrow>
     executions self < executions self'"
proof (cases as)
  case Nil
  assume "as \<noteq> []" with Nil show ?thesis by simp
next
  case (Cons a rest)
  assume run: "retry_attempts lib self kwargs as le = (r, self')"
  show ?thesis
  proof (cases "BaseTool.execute self (executions self) kwargs")
    case (Op_Returns x)
    with run Cons show ?thesis by (auto simp: Let_def)
  next
    case (Op_Raises m)
    show ?thesis
    proof (cases "int a = ToolConfig.max_retries (BaseTool.config self)")
      case True
      with Op_Raises run Cons show ?thesis by (auto simp: Let_def)
    next
      case False
      with Op_Raises run Cons
      have "retry_attempts lib (self\<lparr> executions := Suc (executions self) \<rparr>) kwargs rest
              (Some (Exception m)) = (r, self')"
        by (simp add: Let_def)
      from retry_attempts_frame [OF this] show ?thesis by simp
    qed
  next
    case Op_TimesOut
    with run Cons
    have "\<exists>e. retry_attempts lib (self\<lparr> executions := Suc (executions self) \<rparr>) kwargs rest e = (r, self')"
      by (auto simp: Let_def)
    then obtain e where
      "retry_attempts lib (self\<lparr> executions := Suc (executions self) \<rparr>) kwargs rest e = (r, self')" ..
    from retry_attempts_frame [OF this] show ?thesis by simp
  qed
qed

lemma get_cache_key_name:
  "name self' = name self \<Longrightarrow> get_cache_key lib self' kwargs = get_cache_key lib self kwargs"
  by (simp add: get_cache_key_def split: sum.splits)

lemma call_hit:
  assumes "cache_enabled (BaseTool.config self)"
    and "get_cache_key lib self kwargs = Inr key"
    and "map_of (cache self) key = Some c"
    and "map_of (cache_timestamps self) key = Some ts"
    and "now - ts < real_of_int (cache_ttl (BaseTool.config self))"
  shows "call lib self now later kwargs = Inr (c, self)"
  using assms by (simp add: call_def get_cached_result_def is_cache_valid_def)

lemma execute_with_retry_frame:
  assumes "execute_with_retry lib self kwargs = (r, self')"
  shows "self' = self\<lparr> executions := executions self' \<rparr>"
    and "executions self \<le> executions self'"
    and "0 \<le> ToolConfig.max_retries (BaseTool.config self) \<Longrightarrow> executions self < executions self'"
proof -
  from assms have run:
    "retry_attempts lib self kwargs [0 ..< nat (ToolConfig.max_retries (BaseTool.config self) + 1)] None
       = (r, self')"
    by (simp add: execute_with_retry_def)
  from retry_attempts_frame [OF run]
  show "self' = self\<lparr> executions := executions self' \<rparr>"
    and "executions self \<le> executions self'" by simp_all
  assume "0 \<le> ToolConfig.max_retries (BaseTool.config self)"
  then have "[0 ..< nat (ToolConfig.max_retries (BaseTool.config self) + 1)] \<noteq> []" by simp
  from retry_attempts_executes [OF run this]
  show "executions self < executions self'" .
qed

lemma execute_with_retry_no_attempt:
  assumes "ToolConfig.max_retries (BaseTool.config self) < 0"
  shows "execute_with_retry lib self kwargs = (ToolResult_error (name self) Tool_FAILED ''None'', self)"
  using assms by (simp add: execute_with_retry_def str_opt_exn_def)

lemma call_miss:
  assumes key: "get_cache_key lib self kwargs = Inr key"
    and invalid: "\<not> is_cache_valid self now key"
  shows "\<exists>r self'. call lib self now later kwargs = Inr (r, self')
           \<and> executions self \<le> executions self'
           \<and> (0 \<le> ToolConfig.max_retries (BaseTool.config self) \<longrightarrow> executions self < executions self')
           \<and> name self' = name self \<and> BaseTool.config self' = BaseTool.config self
           \<and> (ToolResult.status r = Tool_COMPLETED \<and> cache_enabled (BaseTool.config self) \<longrightarrow>
                 map_of (cache self') key = Some r \<and> map_of (cache_timestamps self') key = Some later)
           \<and> (\<forall>k. map_of (cache self) k \<noteq> None \<longrightarrow> map_of (cache self') k \<noteq> None)
           \<and> (\<forall>k. map_of (cache_timestamps self) k \<noteq> None \<longrightarrow> map_of (cache_timestamps self') k \<noteq> None)"
proof -
  obtain r s where run: "execute_with_retry lib self kwargs = (r, s)"
    by (cases "execute_with_retry lib self kwargs")
  note fr = execute_with_retry_frame [OF run]
  have s_fields: "name s = name self" "BaseTool.config s = BaseTool.config self"
    "cache s = cache self" "cache_timestamps s = cache_timestamps self"
    by (subst fr(1), simp)+
  show ?thesis
  proof (cases "ToolResult.status r = Tool_COMPLETED")
    case True
    with key invalid run
    have c: "call lib self now later kwargs = Inr (r, cache_result s later key r)"
      by (simp add: call_def get_cached_result_def)
    show ?thesis
      using c fr(2,3) s_fields
      by (auto simp: cache_result_def update_conv')
  next
    case False
    with key invalid run
    have c: "call lib self now later kwargs = Inr (r, s)"
      by (simp add: call_def get_cached_result_def)
    show ?thesis
      using c fr(2,3) s_fields False by auto
  qed
qed

lemma call_frame:
  assumes "call lib self now later kwargs = Inr (r, self')"
  shows "name self' = name self \<and> BaseTool.config self' = BaseTool.config self
           \<and> (\<forall>k. map_of (cache self) k \<noteq> None \<longrightarrow> map_of (cache self') k \<noteq> None)
           \<and> (\<forall>k. map_of (cache_timestamps self) k \<noteq> None \<longrightarrow> map_of (cache_timestamps self') k \<noteq> None)"
proof (cases "get_cache_key lib self kwargs")
  case (Inl e)
  with assms show ?thesis by (simp add: call_def)
next
  case (Inr key)
  show ?thesis
  proof (cases "is_cache_valid self now key")
    case True
    with Inr assms have "self' = self"
      by (auto simp: call_def get_cached_result_def split: option.splits)
    then show ?thesis by simp
  next
    case False
    from call_miss [OF Inr False, of later] assms show ?thesis by auto
  qed
qed

text \<open>No invocation removes a cache entry, renames the tool or changes its configuration.\<close>

lemma calls_frame:
  "name (calls lib self cs) = name self \<and> BaseTool.config (calls lib self cs) = BaseTool.config self
     \<and> (\<forall>k. map_of (cache self) k \<noteq> None \<longrightarrow> map_of (cache (calls lib self cs)) k \<noteq> None)
     \<and> (\<forall>k. map_of (cache_timestamps self) k \<noteq> None
             \<longrightarrow> map_of (cache_timestamps (calls lib self cs)) k \<noteq> None)"
proof (induction cs arbitrary: self)
  case Nil
  then show ?case by simp
next
  case (Cons c cs)
  obtain now later kwargs where c: "c = (now, later, kwargs)" by (cases c)
  show ?case
  proof (cases "call lib self now later kwargs")
    case (Inl e)
    with c Cons.IH [of self] show ?thesis by simp
  next
    case (Inr p)
    obtain r s where p: "p = (r, s)" by (cases p)
    from Inr p have "call lib self now later kwargs = Inr (r, s)" by simp
    note fr = call_frame [OF this]
    from Inr p c have "calls lib self (c # cs) = calls lib s cs" by simp
    with Cons.IH [of s] fr show ?thesis by auto
  qed
qed

text \<open>
  Claim C3. On a tool with caching enabled, let an invocation with parameters \<open>P\<close> run
  the wrapped operation and complete successfully, and let any invocations follow it.
  Then the cache holds an entry for \<open>P\<close>, and an invocation with \<open>P\<close>

  \<^item> made when that entry is younger than \<^verbatim>\<open>cache_ttl\<close> seconds returns the cached
    result and leaves the tool exactly as it was: the operation is not executed and the
    timestamp of the entry is not reset;

  \<^item> made when \<^verbatim>\<open>cache_ttl\<close> seconds or more have gone by executes the operation
    again.
\<close>

theorem cached_result_served_within_ttl:
  fixes self :: "('v, 'r) BaseTool"
  assumes enabled: "cache_enabled (BaseTool.config self)"
    and first: "call lib self now later P = Inr (r, self1)"
    and completed: "ToolResult.status r = Tool_COMPLETED"
    and executed: "executions self < executions self1"
    and between: "T = calls lib self1 between"
  shows "\<exists>key c ts.
           get_cache_key lib T P = Inr key \<and>
           map_of (cache T) key = Some c \<and> map_of (cache_timestamps T) key = Some ts \<and>
           (between = [] \<longrightarrow> c = r \<and> ts = later) \<and>
           (\<forall>now' later'. now' - ts < real_of_int (cache_ttl (BaseTool.config T)) \<longrightarrow>
               call lib T now' later' P = Inr (c, T)) \<and>
           (\<forall>now' later'. \<not> now' - ts < real_of_int (cache_ttl (BaseTool.config T)) \<longrightarrow>
               (\<exists>r' T'. call lib T now' later' P = Inr (r', T') \<and> executions T < executions T'))"
proof -
  obtain key where key: "get_cache_key lib self P = Inr key"
    using first by (cases "get_cache_key lib self P") (simp_all add: call_def)
  have invalid: "\<not> is_cache_valid self now key"
  proof
    assume "is_cache_valid self now key"
    with key first have "self1 = self"
      by (auto simp: call_def get_cached_result_def split: option.splits)
    with executed show False by simp
  qed
  from call_miss [OF key invalid, of later] first
  have name1: "name self1 = name self" and cfg1: "BaseTool.config self1 = BaseTool.config self"
    and c1: "map_of (cache self1) key = Some r"
    and t1: "map_of (cache_timestamps self1) key = Some later"
    using completed enabled by auto
  have retries: "0 \<le> ToolConfig.max_retries (BaseTool.config self)"
  proof (rule ccontr)
    assume "\<not> 0 \<le> ToolConfig.max_retries (BaseTool.config self)"
    then have "execute_with_retry lib self P = (ToolResult_error (name self) Tool_FAILED ''None'', self)"
      by (simp add: execute_with_retry_no_attempt)
    with key invalid first have "ToolResult.status r = Tool_FAILED"
      by (auto simp: call_def get_cached_result_def ToolResult_error_def)
    with completed show False by simp
  qed
  from calls_frame [of lib self1 between] between
  have nameT: "name T = name self1" and cfgT: "BaseTool.config T = BaseTool.config self1"
    and cT: "map_of (cache T) key \<noteq> None" and tT: "map_of (cache_timestamps T) key \<noteq> None"
    using c1 t1 by auto
  then obtain c ts where c: "map_of (cache T) key = Some c"
    and ts: "map_of (cache_timestamps T) key = Some ts" by auto
  have keyT: "get_cache_key lib T P = Inr key"
    using get_cache_key_name [of T self lib P] nameT name1 key by simp
  have enabledT: "cache_enabled (BaseTool.config T)"
    using cfgT cfg1 enabled by simp
  have retriesT: "0 \<le> ToolConfig.max_retries (BaseTool.config T)"
    using cfgT cfg1 retries by simp
  have hit: "call lib T now' later' P = Inr (c, T)"
    if "now' - ts < real_of_int (cache_ttl (BaseTool.config T))" for now' later'
    using call_hit [OF enabledT keyT c ts that] .
  have expired: "\<exists>r' T'. call lib T now' later' P = Inr (r', T') \<and> executions T < executions T'"
    if "\<not> now' - ts < real_of_int (cache_ttl (BaseTool.config T))" for now' later'
  proof -
    from that ts have "\<not> is_cache_valid T now' key"
      by (simp add: is_cache_valid_def)
    from call_miss [OF keyT this, of later'] retriesT show ?thesis by blast
  qed
  have same: "between = [] \<longrightarrow> c = r \<and> ts = later"
    using between c ts c1 t1 by auto
  from keyT c ts same hit expired show ?thesis by blast
qed


theorem cached_result_served_within_ttl_witness:
  "cache_enabled (BaseTool.config demo_tool)
   \<and> call demo_lib demo_tool 0 1 [(''url'', 2)] = Inr (demo_result 0, demo_cached)
   \<and> ToolResult.status (demo_result 0) = Tool_COMPLETED
   \<and> executions demo_tool < executions demo_cached
   \<and> (\<exists>key c ts.
           get_cache_key demo_lib demo_later [(''url'', 2)] = Inr key \<and>
           map_of (cache demo_later) key = Some c \<and>
           map_of (cache_timestamps demo_later) key = Some ts \<and>
           ([(5, 6, [(''id'', 3)])] = ([] :: (real \<times> real \<times> (string \<times> nat) list) list)
              \<longrightarrow> c = demo_result 0 \<and> ts = 1) \<and>
           (\<forall>now' later'. now' - ts < real_of_int (cache_ttl (BaseTool.config demo_later)) \<longrightarrow>
               call demo_lib demo_later now' later' [(''url'', 2)] = Inr (c, demo_later)) \<and>
           (\<forall>now' later'. \<not> now' - ts < real_of_int (cache_ttl (BaseTool.config demo_later)) \<longrightarrow>
               (\<exists>r' T'. call demo_lib demo_later now' later' [(''url'', 2)] = Inr (r', T')
                          \<and> executions demo_later < executions T')))
   \<and> executions demo_later = 2
   \<and> call demo_lib demo_later 300 300 [(''url'', 2)] = Inr (demo_result 0, demo_later)
   \<and> call demo_lib demo_later 301 302 [(''url'', 2)]
       = Inr (demo_result 2,
              demo_later\<lparr> cache := [(''fetch:{url: v}'', demo_result 2),
                                     (''fetch:{id: v}'', demo_result 1)],
                          cache_timestamps := [(''fetch:{url: v}'', 302), (''fetch:{id: v}'', 6)],
                          executions := 3 \<rparr>)"
proof -
  have h1: "cache_enabled (BaseTool.config demo_tool)" by (simp add: demo_defs)
  have h2: "call demo_lib demo_tool 0 1 [(''url'', 2)] = Inr (demo_result 0, demo_cached)"
    by (simp add: call_defs demo_defs)
  have h3: "ToolResult.status (demo_result 0) = Tool_COMPLETED" by (simp add: demo_defs)
  have h4: "executions demo_tool < executions demo_cached" by (simp add: demo_defs)
  have h5: "demo_later = calls demo_lib demo_cached [(5, 6, [(''id'', 3)])]"
    by (simp add: demo_later_def)
  have later_eq: "demo_later =
      demo_tool\<lparr> cache := [(''fetch:{url: v}'', demo_result 0), (''fetch:{id: v}'', demo_result 1)],
                 cache_timestamps := [(''fetch:{url: v}'', 1), (''fetch:{id: v}'', 6)],
                 executions := 2 \<rparr>"
    by (simp add: call_defs demo_defs)
  have e: "executions demo_later = 2" by (simp add: later_eq)
  have hit: "call demo_lib demo_later 300 300 [(''url'', 2)] = Inr (demo_result 0, demo_later)"
    unfolding later_eq by (simp add: call_defs demo_defs)
  have miss: "call demo_lib demo_later 301 302 [(''url'', 2)]
       = Inr (demo_result 2,
              demo_later\<lparr> cache := [(''fetch:{url: v}'', demo_result 2),
                                     (''fetch:{id: v}'', demo_result 1)],
                          cache_timestamps := [(''fetch:{url: v}'', 302), (''fetch:{id: v}'', 6)],
                          executions := 3 \<rparr>)"
    unfolding later_eq by (simp add: call_defs demo_defs)
  from cached_result_served_within_ttl [OF h1 h2 h3 h4 h5] h1 h2 h3 h4 e hit miss
  show ?thesis by blast
qed

subsection \<open>The registry\<close>

lemma find_Some_mem: "find P xs = Some x \<Longrightarrow> x \<in> set xs \<and> P x"
  by (induction xs) (auto split: if_splits)

text \<open>
  Claim C6 says that invoking the registry by a name it does not hold returns, for every
  parameter set, a result with status \<^verbatim>\<open>failed\<close> and error \<^verbatim>\<open>Tool <name> not found\<close>,
  and never raises. That holds for the parameter sets that have no parameter called
  \<^verbatim>\<open>self\<close> or \<^verbatim>\<open>name\<close>, and then the registry is unchanged. A parameter set that has
  one cannot be passed: \<^verbatim>\<open>execute_tool\<close> takes its parameters as keywords beside its own
  \<^verbatim>\<open>self\<close> and \<^verbatim>\<open>name\<close>, and the call raises \<^verbatim>\<open>TypeError\<close> for the first such
  parameter before any lookup.
\<close>

theorem execute_tool_missing_returns_failed_result:
  assumes "n \<notin> set (list_tools reg)"
  shows "(''self'' \<notin> fst ` set kwargs \<and> ''name'' \<notin> fst ` set kwargs \<longrightarrow>
            execute_tool lib reg now later n kwargs =
              Inr (\<lparr> tool_name = n, status = Tool_FAILED, result = None,
                     error = Some (''Tool '' @ n @ '' not found''),
                     execution_time = 0, metadata = [] \<rparr>, reg))
         \<and> (''self'' \<in> fst ` set kwargs \<or> ''name'' \<in> fst ` set kwargs \<longrightarrow>
              (\<exists>k \<in> {''self'', ''name''}. k \<in> fst ` set kwargs
                 \<and> execute_tool lib reg now later n kwargs =
                     Inl (TypeError (''ToolRegistry.execute_tool() got multiple values for argument ''
                            @ [CHR 0x27] @ k @ [CHR 0x27]))))"
proof (intro conjI impI)
  assume free: "''self'' \<notin> fst ` set kwargs \<and> ''name'' \<notin> fst ` set kwargs"
  then have "find (\<lambda>k. k \<in> set [''self'', ''name'']) (map fst kwargs) = None"
    by (force simp: find_None_iff)
  moreover from assms have "map_of (tools reg) n = None"
    by (simp add: list_tools_def map_of_eq_None_iff)
  ultimately show "execute_tool lib reg now later n kwargs =
              Inr (\<lparr> tool_name = n, status = Tool_FAILED, result = None,
                     error = Some (''Tool '' @ n @ '' not found''),
                     execution_time = 0, metadata = [] \<rparr>, reg)"
    by (simp add: execute_tool_def bind_keywords_def get_def ToolResult_error_def)
next
  assume "''self'' \<in> fst ` set kwargs \<or> ''name'' \<in> fst ` set kwargs"
  then have "\<exists>k \<in> set (map fst kwargs). k \<in> set [''self'', ''name'']" by force
  then obtain k where k: "find (\<lambda>k. k \<in> set [''self'', ''name'']) (map fst kwargs) = Some k"
    by (cases "find (\<lambda>k. k \<in> set [''self'', ''name'']) (map fst kwargs)")
       (auto simp: find_None_iff)
  from find_Some_mem [OF k] have k1: "k \<in> {''self'', ''name''}" and k2: "k \<in> fst ` set kwargs"
    by simp_all
  from k have "execute_tool lib reg now later n kwargs =
      Inl (TypeError (''ToolRegistry.execute_tool() got multiple values for argument ''
             @ [CHR 0x27] @ k @ [CHR 0x27]))"
    by (simp add: execute_tool_def bind_keywords_def)
  with k1 k2 show "\<exists>k \<in> {''self'', ''name''}. k \<in> fst ` set kwargs
                 \<and> execute_tool lib reg now later n kwargs =
                     Inl (TypeError (''ToolRegistry.execute_tool() got multiple values for argument ''
                            @ [CHR 0x27] @ k @ [CHR 0x27]))"
    by blast
qed

theorem execute_tool_missing_returns_failed_result_witness:
  "''search'' \<notin> set (list_tools demo_registry)
   \<and> ''self'' \<notin> fst ` set [(''q'', 4::nat)] \<and> ''name'' \<notin> fst ` set [(''q'', 4::nat)]
   \<and> execute_tool demo_lib demo_registry 0 1 ''search'' [(''q'', 4)] =
           Inr (\<lparr> tool_name = ''search'', status = Tool_FAILED, result = None,
                  error = Some ''Tool search not found'',
                  execution_time = 0, metadata = [] \<rparr>, demo_registry)
   \<and> ''name'' \<in> fst ` set [(''q'', 4::nat), (''name'', 5)]
   \<and> execute_tool demo_lib demo_registry 0 1 ''search'' [(''q'', 4), (''name'', 5)] =
           Inl (TypeError (''ToolRegistry.execute_tool() got multiple values for argument ''
                  @ [CHR 0x27] @ ''name'' @ [CHR 0x27]))"
proof -
  have h: "''search'' \<notin> set (list_tools demo_registry)"
    by (simp add: list_tools_def demo_defs)
  have free: "''self'' \<notin> fst ` set [(''q'', 4::nat)] \<and> ''name'' \<notin> fst ` set [(''q'', 4::nat)]"
    by simp
  have clash: "''name'' \<in> fst ` set [(''q'', 4::nat), (''name'', 5)]" by simp
  have self: "''self'' \<notin> fst ` set [(''q'', 4::nat), (''name'', 5)]" by simp
  from execute_tool_missing_returns_failed_result [OF h, of "[(''q'', 4)]" demo_lib 0 1] free
  have a: "execute_tool demo_lib demo_registry 0 1 ''search'' [(''q'', 4)] =
           Inr (\<lparr> tool_name = ''search'', status = Tool_FAILED, result = None,
                  error = Some ''Tool search not found'',
                  execution_time = 0, metadata = [] \<rparr>, demo_registry)"
    by simp
  from execute_tool_missing_returns_failed_result
         [OF h, of "[(''q'', 4), (''name'', 5)]" demo_lib 0 1] clash self
  have b: "execute_tool demo_lib demo_registry 0 1 ''search'' [(''q'', 4), (''name'', 5)] =
           Inl (TypeError (''ToolRegistry.execute_tool() got multiple values for argument ''
                  @ [CHR 0x27] @ ''name'' @ [CHR 0x27]))"
    by auto
  from h free a clash b show ?thesis by simp
qed

text \<open>
  The claim as it is written fails for a parameter set with a parameter called
  \<^verbatim>\<open>name\<close>: the registry does not hold \<^verbatim>\<open>search\<close>, and the call raises.
\<close>

theorem execute_tool_missing_raises_counterexample:
  "''search'' \<notin> set (list_tools demo_registry)
   \<and> execute_tool demo_lib demo_registry 0 1 ''search'' [(''name'', 4)] =
           Inl (TypeError (''ToolRegistry.execute_tool() got multiple values for argument ''
                  @ [CHR 0x27] @ ''name'' @ [CHR 0x27]))"
  by (simp add: execute_tool_def bind_keywords_def list_tools_def demo_defs)

lemma cleanup_loop_all_return:
  "\<forall>p \<in> set ts. BaseTool.cleanup (snd p) = Hook_Returns \<Longrightarrow> cleanup_loop ts = (map fst ts, None)"
  by (induction ts) auto

lemma cleanup_loop_first_failure:
  "\<forall>p \<in> set pre. BaseTool.cleanup (snd p) = Hook_Returns \<Longrightarrow> BaseTool.cleanup t = Hook_Raises m \<Longrightarrow>
     cleanup_loop (pre @ (n, t) # post) = (map fst pre @ [n], Some (Exception m))"
  by (induction pre) auto

text \<open>
  Claim C8, as the source has it. The shutdown operation awaits the release hooks in
  registration order. When no hook raises, every registered tool's hook is awaited and
  nothing is raised. When a hook raises, the loop ends there: the hooks of the tools
  registered before it and its own have been awaited, the exception reaches the caller,
  and the hooks of the tools registered after it are not awaited.
\<close>

theorem cleanup_all_until_first_failure:
  fixes reg :: "('v, 'r) ToolRegistry"
  shows "((\<forall>p \<in> set (tools reg). BaseTool.cleanup (snd p) = Hook_Returns) \<longrightarrow>
            cleanup_all reg = (list_tools reg, None))
       \<and> (\<forall>pre n t post m.
            tools reg = pre @ (n, t) # post
            \<and> (\<forall>p \<in> set pre. BaseTool.cleanup (snd p) = Hook_Returns)
            \<and> BaseTool.cleanup t = Hook_Raises m \<longrightarrow>
            cleanup_all reg = (map fst pre @ [n], Some (Exception m)))"
  by (auto simp: cleanup_all_def list_tools_def cleanup_loop_all_return cleanup_loop_first_failure)

theorem cleanup_all_until_first_failure_witness:
  "cleanup_all demo_healthy_registry = ([''fetch'', ''llm''], None)
   \<and> list_tools demo_healthy_registry = [''fetch'', ''llm'']
   \<and> tools demo_registry = [(''fetch'', demo_tool)] @ (''db'', demo_db) # [(''llm'', demo_llm)]
   \<and> BaseTool.cleanup demo_tool = Hook_Returns
   \<and> BaseTool.cleanup demo_db = Hook_Raises ''connection lost''
   \<and> cleanup_all demo_registry = ([''fetch'', ''db''], Some (Exception ''connection lost''))"
proof -
  have ok: "\<forall>p \<in> set (tools demo_healthy_registry). BaseTool.cleanup (snd p) = Hook_Returns"
    by (simp add: demo_defs)
  have names: "list_tools demo_healthy_registry = [''fetch'', ''llm'']"
    by (simp add: list_tools_def demo_defs)
  have split: "tools demo_registry = [(''fetch'', demo_tool)] @ (''db'', demo_db) # [(''llm'', demo_llm)]"
    by (simp add: demo_defs)
  have pre: "\<forall>p \<in> set [(''fetch'', demo_tool)]. BaseTool.cleanup (snd p) = Hook_Returns"
    by (simp add: demo_defs)
  have h1: "BaseTool.cleanup demo_tool = Hook_Returns" by (simp add: demo_defs)
  have h2: "BaseTool.cleanup demo_db = Hook_Raises ''connection lost''" by (simp add: demo_defs)
  have a: "cleanup_all demo_healthy_registry = (list_tools demo_healthy_registry, None)"
    using cleanup_all_until_first_failure [of demo_healthy_registry] ok by blast
  have b: "cleanup_all demo_registry = (map fst [(''fetch'', demo_tool)] @ [''db''],
                                        Some (Exception ''connection lost''))"
    using cleanup_all_until_first_failure [of demo_registry] split pre h2 by blast
  from a b names split h1 h2
  show ?thesis by simp
qed

text \<open>
  The claim as first stated fails: with a tool whose hook raises registered between two
  others, the hook of the last one is never awaited.
\<close>

theorem cleanup_all_aborts_counterexample:
  "''llm'' \<in> set (list_tools demo_registry)
   \<and> ''llm'' \<notin> set (fst (cleanup_all demo_registry))
   \<and> snd (cleanup_all demo_registry) = Some (Exception ''connection lost'')"
  by (simp add: cleanup_all_def list_tools_def demo_defs)

subsection \<open>Looking a tool up from a step\<close>

text \<open>
  Claim C10. A step constructed without a registry gets \<^verbatim>\<open>None\<close> from
  \<^verbatim>\<open>get_tool\<close> for every name. A step constructed with a \<^verbatim>\<open>ToolRegistry\<close> gets an
  attribute error for every name, registered or not: the registry has \<^verbatim>\<open>get\<close> and no
  \<^verbatim>\<open>get_tool\<close>.
\<close>

theorem get_tool_none_or_attribute_error:
  fixes reg :: "('v, 'r) ToolRegistry" and cfg :: "(string \<times> 'c) list option"
  shows "get_tool (BaseAgent_init aid cfg (None :: ('v, 'r) ToolRegistry option)) tn = Inr None
   \<and> get_tool (BaseAgent_init aid cfg (Some reg)) tn =
       Inl (AttributeError ([CHR 0x27] @ ''ToolRegistry'' @ [CHR 0x27]
              @ '' object has no attribute '' @ [CHR 0x27] @ ''get_tool'' @ [CHR 0x27]))
   \<and> ''get'' \<in> set ToolRegistry_attributes
   \<and> ''get_tool'' \<notin> set ToolRegistry_attributes"
  by (simp add: get_tool_def BaseAgent_init_def ToolRegistry_getattr_def ToolRegistry_attributes_def)

theorem get_tool_none_or_attribute_error_witness:
  "get_tool (BaseAgent_init ''data_analyzer'' (None :: (string \<times> nat) list option)
              (None :: (nat, nat) ToolRegistry option)) ''fetch'' = Inr None
   \<and> get demo_registry ''fetch'' = Some demo_tool
   \<and> get_tool (BaseAgent_init ''data_analyzer'' (None :: (string \<times> nat) list option)
              (Some demo_registry)) ''fetch'' =
       Inl (AttributeError ([CHR 0x27] @ ''ToolRegistry'' @ [CHR 0x27]
              @ '' object has no attribute '' @ [CHR 0x27] @ ''get_tool'' @ [CHR 0x27]))"
proof -
  have g: "get demo_registry ''fetch'' = Some demo_tool"
    by (simp add: get_def demo_defs)
  from g
    get_tool_none_or_attribute_error [of "''data_analyzer''" "None :: (string \<times> nat) list option"
      "''fetch''" demo_registry]
  show ?thesis by simp
qed

section \<open>Properties of the execution engine\<close>

lemmas engine_defs = execute_task_def build_agent_graph_def agent_node_def
  execute_agent_with_retry_def finally_cleanup_def wait_for_def cancel_node_def elapsed_def
  mark_failed_def
  initial_state_def task_config_def register_agent_def upt_conv_Cons Let_def

lemmas engine_demo_defs = demo_orchestrator_def demo_task_config_def step_a_def step_b_def
  step_c_def step_flaky_def data_analyzer_def

subsection \<open>Building the plan\<close>

lemma add_nodes_first_unregistered:
  "\<forall>b \<in> set pre. b \<in> fst ` set (agents self) \<Longrightarrow> x \<notin> fst ` set (agents self) \<Longrightarrow>
     add_nodes lib self nodes (pre @ x # post) =
       Inl (ValueError (case refusal lib nodes pre of
                          None \<Rightarrow> ''Agent '' @ x @ '' not registered''
                        | Some m \<Rightarrow> m))"
proof (induction pre arbitrary: nodes)
  case Nil
  then show ?case by (simp add: map_of_eq_None_iff)
next
  case (Cons p pre)
  from Cons.prems have "map_of (agents self) p \<noteq> None"
    and rest: "\<forall>b \<in> set pre. b \<in> fst ` set (agents self)"
    by (simp_all add: map_of_eq_None_iff)
  then obtain agent where p: "map_of (agents self) p = Some agent" by blast
  show ?case
  proof (cases "add_node lib nodes p")
    case None
    with p Cons.IH [OF rest Cons.prems(2), of "nodes @ [p]"] show ?thesis by simp
  next
    case (Some m)
    with p show ?thesis by simp
  qed
qed

lemma add_nodes_Inr:
  "add_nodes lib self nodes xs = Inr ns \<Longrightarrow>
     ns = nodes @ xs \<and> (\<forall>a \<in> set xs. a \<in> fst ` set (agents self)) \<and> refusal lib nodes xs = None"
proof (induction xs arbitrary: nodes)
  case Nil
  then show ?case by simp
next
  case (Cons x xs)
  from Cons.prems have "map_of (agents self) x \<noteq> None"
    by (auto split: if_splits)
  then obtain agent where x: "map_of (agents self) x = Some agent" by blast
  with Cons.prems have acc: "add_node lib nodes x = None"
    and rest: "add_nodes lib self (nodes @ [x]) xs = Inr ns"
    by (auto split: option.splits)
  from x have "x \<in> fst ` set (agents self)"
    by (metis map_of_SomeD fst_conv imageI)
  with Cons.IH [OF rest] acc show ?case by simp
qed

lemma add_nodes_accepted:
  "\<forall>a \<in> set xs. a \<in> fst ` set (agents self) \<Longrightarrow> refusal lib nodes xs = None \<Longrightarrow>
     add_nodes lib self nodes xs = Inr (nodes @ xs)"
proof (induction xs arbitrary: nodes)
  case Nil
  then show ?case by simp
next
  case (Cons x xs)
  from Cons.prems(1) have "map_of (agents self) x \<noteq> None"
    and rest: "\<forall>a \<in> set xs. a \<in> fst ` set (agents self)"
    by (simp_all add: map_of_eq_None_iff)
  then obtain agent where x: "map_of (agents self) x = Some agent" by blast
  from Cons.prems(2) have acc: "add_node lib nodes x = None"
    and r: "refusal lib (nodes @ [x]) xs = None"
    by (auto split: option.splits)
  from Cons.IH [OF rest r] x acc show ?case by simp
qed

text \<open>A plan that has been built is the sequence itself, and all its names are registered.\<close>

lemma build_agent_graph_Inr:
  assumes "build_agent_graph lib self agent_sequence = Inr graph"
  shows "graph = agent_sequence" and "\<forall>a \<in> set agent_sequence. a \<in> fst ` set (agents self)"
proof -
  from assms obtain ns where ns: "add_nodes lib self [] agent_sequence = Inr ns" and g: "graph = ns"
    by (auto simp: build_agent_graph_def split: sum.splits option.splits)
  from add_nodes_Inr [OF ns] g show "graph = agent_sequence"
    and "\<forall>a \<in> set agent_sequence. a \<in> fst ` set (agents self)" by simp_all
qed

text \<open>
  With the library of the examples, the plans that are built are the non-empty sequences
  of distinct registered names.
\<close>

lemma demo_graphlib_refusal:
  "refusal demo_graphlib nodes xs = None \<longleftrightarrow> distinct xs \<and> set xs \<inter> set nodes = {}"
proof (induction xs arbitrary: nodes)
  case Nil
  then show ?case by simp
next
  case (Cons x xs)
  show ?case
  proof (cases "x \<in> set nodes")
    case True
    then show ?thesis by (simp add: demo_graphlib_def)
  next
    case False
    then have "refusal demo_graphlib nodes (x # xs) = refusal demo_graphlib (nodes @ [x]) xs"
      by (simp add: demo_graphlib_def)
    with Cons.IH [of "nodes @ [x]"] False show ?thesis by auto
  qed
qed

lemma demo_graphlib_builds:
  "build_agent_graph demo_graphlib self agent_sequence = Inr graph \<longleftrightarrow>
     graph = agent_sequence \<and> agent_sequence \<noteq> [] \<and> distinct agent_sequence
     \<and> (\<forall>a \<in> set agent_sequence. a \<in> fst ` set (agents self))"
proof
  assume built: "build_agent_graph demo_graphlib self agent_sequence = Inr graph"
  then obtain ns where ns: "add_nodes demo_graphlib self [] agent_sequence = Inr ns"
    and c: "compile demo_graphlib ns = None" and g: "graph = ns"
    by (auto simp: build_agent_graph_def split: sum.splits option.splits)
  from add_nodes_Inr [OF ns] have eq: "ns = agent_sequence"
    and reg: "\<forall>a \<in> set agent_sequence. a \<in> fst ` set (agents self)"
    and acc: "refusal demo_graphlib [] agent_sequence = None" by simp_all
  from c eq have "agent_sequence \<noteq> []" by (auto simp: demo_graphlib_def split: if_splits)
  with eq g reg acc show "graph = agent_sequence \<and> agent_sequence \<noteq> [] \<and> distinct agent_sequence
     \<and> (\<forall>a \<in> set agent_sequence. a \<in> fst ` set (agents self))"
    by (simp add: demo_graphlib_refusal)
next
  assume a: "graph = agent_sequence \<and> agent_sequence \<noteq> [] \<and> distinct agent_sequence
     \<and> (\<forall>a \<in> set agent_sequence. a \<in> fst ` set (agents self))"
  then have "refusal demo_graphlib [] agent_sequence = None" by (simp add: demo_graphlib_refusal)
  with a have "add_nodes demo_graphlib self [] agent_sequence = Inr agent_sequence"
    using add_nodes_accepted [of agent_sequence self demo_graphlib "[]"] by simp
  moreover from a have "compile demo_graphlib agent_sequence = None" by (simp add: demo_graphlib_def)
  ultimately show "build_agent_graph demo_graphlib self agent_sequence = Inr graph"
    using a by (simp add: build_agent_graph_def)
qed

lemma mark_failed_lookup:
  "map_of (execution_metadata (mark_failed msg st)) ''status'' = Some (Meta_Status Task_FAILED)"
  "map_of (execution_metadata (mark_failed msg st)) ''error'' = Some (Meta_Str msg)"
  "agent_results (mark_failed msg st) = agent_results st"
  "shared_data (mark_failed msg st) = shared_data st"
  by (simp_all add: mark_failed_def update_conv')

text \<open>
  Claim C4 says that a step sequence with an unregistered name ends the task \<^verbatim>\<open>FAILED\<close>
  before any step runs, with no step outcome and an error message that has the
  unresolved name in it. The loop that builds the plan tests a name and hands it to the
  graph library before it looks at the next one, so a name before the first unregistered
  one that the library refuses ends the loop first. Let \<open>x\<close> be the first unregistered
  name of the sequence and \<open>pre\<close> the names before it. Then \<^verbatim>\<open>execute_task\<close> returns
  the state it created, marked \<^verbatim>\<open>FAILED\<close>, with \<^verbatim>\<open>agent_results\<close> empty and no action
  of any step begun; the error text is \<^verbatim>\<open>Agent x not registered\<close> when the library
  refuses none of \<open>pre\<close>, and the text of the library's first refusal otherwise.
\<close>

theorem unregistered_step_fails_task_before_any_step:
  assumes "a \<in> set agent_sequence" and "a \<notin> fst ` set (agents self)"
  shows "\<exists>pre x post msg.
           agent_sequence = pre @ x # post
           \<and> (\<forall>b \<in> set pre. b \<in> fst ` set (agents self))
           \<and> x \<notin> fst ` set (agents self)
           \<and> msg = (case refusal lib [] pre of
                      None \<Rightarrow> ''Agent '' @ x @ '' not registered''
                    | Some m \<Rightarrow> m)
           \<and> execute_task lib self tid agent_sequence initial_data custom_config
               = (Returned_State (mark_failed msg (initial_state tid initial_data)), [])
           \<and> agent_results (mark_failed msg (initial_state tid initial_data)) = []
           \<and> map_of (execution_metadata (mark_failed msg (initial_state tid initial_data))) ''status''
               = Some (Meta_Status Task_FAILED)
           \<and> map_of (execution_metadata (mark_failed msg (initial_state tid initial_data))) ''error''
               = Some (Meta_Str msg)"
proof -
  from assms have "\<exists>x \<in> set agent_sequence. x \<notin> fst ` set (agents self)" by blast
  from split_list_first_prop [OF this] obtain pre x post where
    split: "agent_sequence = pre @ x # post"
    and x: "x \<notin> fst ` set (agents self)"
    and pre: "\<forall>b \<in> set pre. \<not> b \<notin> fst ` set (agents self)"
    by blast
  from pre have pre': "\<forall>b \<in> set pre. b \<in> fst ` set (agents self)" by simp
  define msg where "msg = (case refusal lib [] pre of
                             None \<Rightarrow> ''Agent '' @ x @ '' not registered''
                           | Some m \<Rightarrow> m)"
  let ?st = "mark_failed msg (initial_state tid initial_data)"
  from add_nodes_first_unregistered [OF pre' x, of lib "[]" post]
  have "build_agent_graph lib self agent_sequence = Inl (ValueError msg)"
    by (simp add: build_agent_graph_def split msg_def)
  then have task: "execute_task lib self tid agent_sequence initial_data custom_config
                     = (Returned_State ?st, [])"
    by (simp add: execute_task_def)
  have none: "agent_results ?st = []"
    by (simp add: mark_failed_lookup initial_state_def)
  from split pre' x msg_def task none mark_failed_lookup(1,2) [of msg "initial_state tid initial_data"]
  show ?thesis by blast
qed

theorem unregistered_step_fails_task_before_any_step_witness:
  "''zzz'' \<in> set [''a'', ''zzz'', ''b'']
   \<and> ''zzz'' \<notin> fst ` set (agents demo_orchestrator)
   \<and> ''a'' \<in> fst ` set (agents demo_orchestrator)
   \<and> refusal demo_graphlib [] [''a''] = None
   \<and> execute_task demo_graphlib demo_orchestrator ''t1'' [''a'', ''zzz'', ''b''] None None =
       (Returned_State
          \<lparr> AgentState.task_id = ''t1'', agent_results = [], shared_data = [],
            execution_metadata = [(''error'', Meta_Str ''Agent zzz not registered''),
                                  (''status'', Meta_Status Task_FAILED)] \<rparr>, [])
   \<and> (\<exists>msg. fst (execute_task demo_graphlib demo_orchestrator ''t1'' [''a'', ''zzz'', ''b''] None None)
               = Returned_State (mark_failed msg (initial_state ''t1'' None))
             \<and> map_of (execution_metadata (mark_failed msg (initial_state ''t1'' None :: nat AgentState)))
                 ''status'' = Some (Meta_Status Task_FAILED))"
proof -
  have h1: "''zzz'' \<in> set [''a'', ''zzz'', ''b'']" by simp
  have h2: "''zzz'' \<notin> fst ` set (agents demo_orchestrator)"
    by (simp add: engine_defs engine_demo_defs)
  have h3: "''a'' \<in> fst ` set (agents demo_orchestrator)"
    by (simp add: engine_defs engine_demo_defs)
  have h4: "refusal demo_graphlib [] [''a''] = None" by (simp add: demo_graphlib_def)
  have v: "execute_task demo_graphlib demo_orchestrator ''t1'' [''a'', ''zzz'', ''b''] None None =
       (Returned_State
          \<lparr> AgentState.task_id = ''t1'', agent_results = [], shared_data = [],
            execution_metadata = [(''error'', Meta_Str ''Agent zzz not registered''),
                                  (''status'', Meta_Status Task_FAILED)] \<rparr>, [])"
    by (simp add: engine_defs engine_demo_defs demo_graphlib_def)
  from unregistered_step_fails_task_before_any_step
         [OF h1 h2, of demo_graphlib "''t1''" None None]
  have "\<exists>msg. fst (execute_task demo_graphlib demo_orchestrator ''t1'' [''a'', ''zzz'', ''b''] None None)
               = Returned_State (mark_failed msg (initial_state ''t1'' None))
             \<and> map_of (execution_metadata (mark_failed msg (initial_state ''t1'' None :: nat AgentState)))
                 ''status'' = Some (Meta_Status Task_FAILED)"
    by fastforce
  with h1 h2 h3 h4 v show ?thesis by blast
qed

text \<open>
  The claim as it is written fails for the sequence \<^verbatim>\<open>a, a, zzz\<close>: \<^verbatim>\<open>zzz\<close> is not
  registered, the library refuses the second \<^verbatim>\<open>a\<close> before \<^verbatim>\<open>zzz\<close> is looked at, and
  the error text does not have \<^verbatim>\<open>zzz\<close> in it.
\<close>

theorem unregistered_step_error_without_name_counterexample:
  "''zzz'' \<in> set [''a'', ''a'', ''zzz'']
   \<and> ''zzz'' \<notin> fst ` set (agents demo_orchestrator)
   \<and> execute_task demo_graphlib demo_orchestrator ''t1'' [''a'', ''a'', ''zzz''] None None =
       (Returned_State
          \<lparr> AgentState.task_id = ''t1'', agent_results = [], shared_data = [],
            execution_metadata = [(''error'', Meta_Str ''Node `a` already present.''),
                                  (''status'', Meta_Status Task_FAILED)] \<rparr>, [])
   \<and> \<not> sublist ''zzz'' ''Node `a` already present.''"
proof -
  have "\<not> sublist ''zzz'' ''Node `a` already present.''"
    by (simp add: sublist_Cons_right)
  moreover have "''zzz'' \<notin> fst ` set (agents demo_orchestrator)"
    by (simp add: engine_defs engine_demo_defs)
  moreover have "execute_task demo_graphlib demo_orchestrator ''t1'' [''a'', ''a'', ''zzz''] None None =
       (Returned_State
          \<lparr> AgentState.task_id = ''t1'', agent_results = [], shared_data = [],
            execution_metadata = [(''error'', Meta_Str ''Node `a` already present.''),
                                  (''status'', Meta_Status Task_FAILED)] \<rparr>, [])"
    by (simp add: engine_defs engine_demo_defs demo_graphlib_def)
  ultimately show ?thesis by simp
qed

subsection \<open>The clock\<close>

lemma elapsed_simps:
  "elapsed [] = 0"
  "elapsed (x # lg) = duration (fst x) + elapsed lg"
  "elapsed (lg @ lg') = elapsed lg + elapsed lg'"
  by (simp_all add: elapsed_def)




lemma deadline_exceeded:
  "(\<exists>x \<in> set lg. blocks (fst x)) \<or> (lg \<noteq> [] \<and> t \<le> used + elapsed lg) \<Longrightarrow>
     \<exists>x \<in> set lg. fst (deadline t used lg) = Inr x"
proof (induction lg arbitrary: used)
  case Nil
  then show ?case by simp
next
  case (Cons x lg)
  obtain ev st where x: "x = (ev, st)" by (cases x)
  show ?case
  proof (cases "blocks ev \<or> \<not> used + duration ev < t")
    case True
    with x show ?thesis by auto
  next
    case False
    then have nb: "\<not> blocks ev" and now: "used + duration ev < t" by auto
    have "(\<exists>y \<in> set lg. blocks (fst y)) \<or> (lg \<noteq> [] \<and> t \<le> (used + duration ev) + elapsed lg)"
    proof (cases "\<exists>y \<in> set lg. blocks (fst y)")
      case True
      then show ?thesis by simp
    next
      case False
      with Cons.prems x nb have le: "t \<le> used + elapsed (x # lg)" by auto
      have "lg \<noteq> []"
      proof
        assume "lg = []"
        with le x now show False by (simp add: elapsed_simps)
      qed
      with le x show ?thesis by (simp add: elapsed_simps add.assoc)
    qed
    from Cons.IH [OF this] obtain y where
      "y \<in> set lg" "fst (deadline t (used + duration ev) lg) = Inr y" ..
    with x nb now show ?thesis by (auto split: prod.splits)
  qed
qed

lemma deadline_begun_prefix: "\<exists>rest. lg = snd (deadline t used lg) @ rest"
proof (induction lg arbitrary: used)
  case Nil
  then show ?case by simp
next
  case (Cons x lg)
  obtain ev st where x: "x = (ev, st)" by (cases x)
  from Cons.IH [of "used + duration ev"] obtain rest where
    "lg = snd (deadline t (used + duration ev) lg) @ rest" ..
  with x show ?case by (auto split: prod.splits)
qed

text \<open>
  The per-call configuration reaches a run through its timeout alone: two configurations
  with the same timeout give the same result, whatever their retry settings.
\<close>

lemma custom_config_read_for_timeout_only:
  assumes "TaskConfig.timeout c = TaskConfig.timeout c'"
  shows "execute_task lib self tid agent_sequence initial_data (Some c)
           = execute_task lib self tid agent_sequence initial_data (Some c')"
  unfolding execute_task_def task_config_def option.case Let_def assms by (rule refl)

subsection \<open>What the retry loop, a node and a plan leave behind\<close>

lemma attempts_actors:
  "attempts cfg aid agent as le st ar = (out, ar', lg) \<Longrightarrow> \<forall>x \<in> set lg. actor (fst x) = aid"
proof (induction as arbitrary: le st ar out ar' lg)
  case Nil
  then show ?case by (auto split: option.splits)
next
  case (Cons a as)
  show ?case
  proof (cases "concurrent_agents cfg \<le> 0")
    case True
    with Cons.prems show ?thesis by (auto simp: Let_def split: if_splits)
  next
    case slots: False
    show ?thesis
    proof (cases "agent_class.execute agent a st")
      case (Returns d s)
      with slots Cons.prems show ?thesis by (auto simp: Let_def split: if_splits)
    next
      case (Raises d m s)
      show ?thesis
      proof (cases "int a = TaskConfig.max_retries cfg")
        case True
        with Raises slots Cons.prems show ?thesis by (auto simp: Let_def split: if_splits)
      next
        case False
        obtain o2 ar2 lg2 where rec:
          "attempts cfg aid agent as (Some (Exception m)) s
             (if 0 < a then ar\<lparr> AgentResult.status := Agent_RETRYING, retry_count := int a \<rparr> else ar)
           = (o2, ar2, lg2)"
          by (metis prod_cases3)
        from Cons.IH [OF rec] have "\<forall>x \<in> set lg2. actor (fst x) = aid" .
        with rec False Raises slots Cons.prems show ?thesis
          by (fastforce simp: Let_def split: if_splits)
      qed
    qed
  qed
qed

lemma attempts_no_block:
  "0 < concurrent_agents cfg \<Longrightarrow> attempts cfg aid agent as le st ar = (out, ar', lg) \<Longrightarrow>
     (\<forall>x \<in> set lg. \<not> blocks (fst x)) \<and> (\<forall>s. out \<noteq> Retry_Blocked s)"
proof (induction as arbitrary: le st ar out ar' lg)
  case Nil
  then show ?case by (auto split: option.splits)
next
  case (Cons a as)
  show ?case
  proof (cases "agent_class.execute agent a st")
    case (Returns d s)
    with Cons.prems show ?thesis by (auto simp: Let_def split: if_splits)
  next
    case (Raises d m s)
    show ?thesis
    proof (cases "int a = TaskConfig.max_retries cfg")
      case True
      with Raises Cons.prems show ?thesis by (auto simp: Let_def split: if_splits)
    next
      case False
      obtain o2 ar2 lg2 where rec:
        "attempts cfg aid agent as (Some (Exception m)) s
           (if 0 < a then ar\<lparr> AgentResult.status := Agent_RETRYING, retry_count := int a \<rparr> else ar)
         = (o2, ar2, lg2)"
        by (metis prod_cases3)
      from Cons.IH [OF Cons.prems(1) rec]
      have "(\<forall>x \<in> set lg2. \<not> blocks (fst x)) \<and> (\<forall>s. o2 \<noteq> Retry_Blocked s)" .
      with rec False Raises Cons.prems show ?thesis
        by (fastforce simp: Let_def split: if_splits)
    qed
  qed
qed

lemma attempts_ledger:
  assumes keeps: "\<forall>n s. agent_results (outcome_state (agent_class.execute agent n s)) = agent_results s"
  shows "attempts cfg aid agent as le st ar = (out, ar', lg) \<Longrightarrow>
           agent_results (retry_state out) = agent_results st"
proof (induction as arbitrary: le st ar out ar' lg)
  case Nil
  then show ?case by (auto split: option.splits)
next
  case (Cons a as)
  show ?case
  proof (cases "concurrent_agents cfg \<le> 0")
    case True
    with Cons.prems show ?thesis by (auto simp: Let_def split: if_splits)
  next
    case slots: False
    show ?thesis
    proof (cases "agent_class.execute agent a st")
      case (Returns d s)
      with keeps [rule_format, of a st] have "agent_results s = agent_results st" by simp
      with Returns slots Cons.prems show ?thesis by (auto simp: Let_def split: if_splits)
    next
      case (Raises d m s)
      with keeps [rule_format, of a st] have same: "agent_results s = agent_results st" by simp
      show ?thesis
      proof (cases "int a = TaskConfig.max_retries cfg")
        case True
        with same Raises slots Cons.prems show ?thesis by (auto simp: Let_def split: if_splits)
      next
        case False
        obtain o2 ar2 lg2 where rec:
          "attempts cfg aid agent as (Some (Exception m)) s
             (if 0 < a then ar\<lparr> AgentResult.status := Agent_RETRYING, retry_count := int a \<rparr> else ar)
           = (o2, ar2, lg2)"
          by (metis prod_cases3)
        from Cons.IH [OF rec] same have "agent_results (retry_state o2) = agent_results st" by simp
        with rec False Raises slots Cons.prems show ?thesis
          by (auto simp: Let_def split: if_splits)
      qed
    qed
  qed
qed

lemma finally_cleanup_cases:
  assumes "finally_cleanup aid agent st out = (out', cl)"
  shows "(cl = [] \<or> cl = [(Cleaned aid, st)]) \<and> (out' = out \<or> (\<exists>e. out' = Node_Raises e st))"
proof (cases "agent_class.cleanup agent")
  case No_Hook
  with assms show ?thesis by (auto simp: finally_cleanup_def)
next
  case (Hook h)
  with assms show ?thesis by (cases h) (auto simp: finally_cleanup_def)
qed

text \<open>What a node does, given what its retry loop did.\<close>

lemma agent_node_shape:
  assumes run: "agent_node self aid st = (out, lg)"
    and reg: "map_of (agents self) aid = Some agent"
    and att: "execute_agent_with_retry self aid agent st
                \<lparr> AgentResult.agent_id = aid, task_id = AgentState.task_id st,
                  status = Agent_RUNNING, result = None, error = None, execution_time = 0,
                  retry_count = 0, metadata = None \<rparr> = (ro, ar, lg1)"
  shows "\<exists>cl. lg = (Started aid, st) # lg1 @ cl
           \<and> (cl = [] \<or> (\<exists>s. cl = [(Cleaned aid, s)]))
           \<and> (\<forall>s. ro = Retry_Blocked s \<longrightarrow> out = Node_Blocked s)
           \<and> (\<forall>s. out = Node_Blocked s \<longrightarrow> ro = Retry_Blocked s)
           \<and> (\<forall>s. ro = Retry_Returned s \<longrightarrow>
                 final_state out = s\<lparr> agent_results := AList.update aid
                    (ar\<lparr> AgentResult.execution_time := elapsed lg1,
                         AgentResult.status := Agent_COMPLETED,
                         AgentResult.result := map_of (shared_data s) (aid @ ''_result'') \<rparr>)
                    (agent_results s) \<rparr>)
           \<and> (\<forall>e s. ro = Retry_Raised e s \<longrightarrow>
                 (\<exists>e'. out = Node_Raises e'
                    (s\<lparr> agent_results := AList.update aid
                          (ar\<lparr> AgentResult.execution_time := elapsed lg1,
                               AgentResult.status := Agent_FAILED,
                               AgentResult.error := Some (str_exn e) \<rparr>)
                          (agent_results s),
                        execution_metadata := AList.update ''error'' (Meta_Str (str_exn e))
                          (execution_metadata s) \<rparr>)))"
proof (cases ro)
  case (Retry_Blocked s)
  with run reg att have "out = Node_Blocked s" "lg = (Started aid, st) # lg1 @ []"
    by (auto simp: agent_node_def)
  with Retry_Blocked show ?thesis by blast
next
  case (Retry_Returned s)
  let ?s' = "s\<lparr> agent_results := AList.update aid
                    (ar\<lparr> AgentResult.execution_time := elapsed lg1,
                         AgentResult.status := Agent_COMPLETED,
                         AgentResult.result := map_of (shared_data s) (aid @ ''_result'') \<rparr>)
                    (agent_results s) \<rparr>"
  obtain o' cl where f: "finally_cleanup aid agent ?s' (Node_Returns ?s') = (o', cl)"
    by (cases "finally_cleanup aid agent ?s' (Node_Returns ?s')")
  from run reg att Retry_Returned f have eq: "out = o'" "lg = (Started aid, st) # lg1 @ cl"
    by (simp_all add: agent_node_def Let_def)
  from finally_cleanup_cases [OF f] have
    c1: "cl = [] \<or> cl = [(Cleaned aid, ?s')]" and c2: "o' = Node_Returns ?s' \<or> (\<exists>e. o' = Node_Raises e ?s')"
    by simp_all
  from c2 have fs: "final_state o' = ?s'" and nbk: "\<forall>t. o' \<noteq> Node_Blocked t" by auto
  from eq c1 fs nbk Retry_Returned show ?thesis by auto
next
  case (Retry_Raised e s)
  let ?s' = "s\<lparr> agent_results := AList.update aid
                          (ar\<lparr> AgentResult.execution_time := elapsed lg1,
                               AgentResult.status := Agent_FAILED,
                               AgentResult.error := Some (str_exn e) \<rparr>)
                          (agent_results s),
                        execution_metadata := AList.update ''error'' (Meta_Str (str_exn e))
                          (execution_metadata s) \<rparr>"
  obtain o' cl where f: "finally_cleanup aid agent ?s' (Node_Raises e ?s') = (o', cl)"
    by (cases "finally_cleanup aid agent ?s' (Node_Raises e ?s')")
  from run reg att Retry_Raised f have eq: "out = o'" "lg = (Started aid, st) # lg1 @ cl"
    by (simp_all add: agent_node_def Let_def)
  from finally_cleanup_cases [OF f] have
    c1: "cl = [] \<or> cl = [(Cleaned aid, ?s')]" and c2: "\<exists>e'. o' = Node_Raises e' ?s'"
    by auto
  from eq c1 c2 Retry_Raised show ?thesis by auto
qed

lemma agent_node_unregistered:
  "map_of (agents self) aid = None \<Longrightarrow> agent_node self aid st = (Node_Raises (KeyError aid) st, [])"
  by (simp add: agent_node_def)

lemma agent_node_frame:
  assumes run: "agent_node self aid st = (out, lg)"
  shows "\<forall>x \<in> set lg. actor (fst x) = aid"
    and "0 < concurrent_agents (AgentOrchestrator.config self) \<Longrightarrow>
           (\<forall>x \<in> set lg. \<not> blocks (fst x)) \<and> (\<forall>s. out \<noteq> Node_Blocked s)"
    and "\<forall>a agent n s. map_of (agents self) a = Some agent \<longrightarrow>
             agent_results (outcome_state (agent_class.execute agent n s)) = agent_results s \<Longrightarrow>
           fst ` set (agent_results (final_state out)) \<subseteq> insert aid (fst ` set (agent_results st))"
proof -
  let ?cfg = "AgentOrchestrator.config self"
  let ?P = "\<forall>a agent n s. map_of (agents self) a = Some agent \<longrightarrow>
             agent_results (outcome_state (agent_class.execute agent n s)) = agent_results s"
  let ?ar0 = "\<lparr> AgentResult.agent_id = aid, task_id = AgentState.task_id st,
                 status = Agent_RUNNING, result = None, error = None, execution_time = 0,
                 retry_count = 0, metadata = None \<rparr>"
  show "\<forall>x \<in> set lg. actor (fst x) = aid"
  proof (cases "map_of (agents self) aid")
    case None
    with run show ?thesis by (auto simp: agent_node_unregistered)
  next
    case (Some agent)
    obtain ro ar lg1 where att: "execute_agent_with_retry self aid agent st ?ar0 = (ro, ar, lg1)"
      by (metis prod_cases3)
    from att have "\<forall>x \<in> set lg1. actor (fst x) = aid"
      unfolding execute_agent_with_retry_def by (rule attempts_actors)
    moreover from agent_node_shape [OF run Some att] obtain cl where
      "lg = (Started aid, st) # lg1 @ cl" "cl = [] \<or> (\<exists>s. cl = [(Cleaned aid, s)])" by blast
    ultimately show ?thesis by auto
  qed
  show "(\<forall>x \<in> set lg. \<not> blocks (fst x)) \<and> (\<forall>s. out \<noteq> Node_Blocked s)"
    if slots: "0 < concurrent_agents ?cfg"
  proof (cases "map_of (agents self) aid")
    case None
    with run show ?thesis by (auto simp: agent_node_unregistered)
  next
    case (Some agent)
    obtain ro ar lg1 where att: "execute_agent_with_retry self aid agent st ?ar0 = (ro, ar, lg1)"
      by (metis prod_cases3)
    from att have nb: "(\<forall>x \<in> set lg1. \<not> blocks (fst x)) \<and> (\<forall>s. ro \<noteq> Retry_Blocked s)"
      unfolding execute_agent_with_retry_def by (rule attempts_no_block [OF slots])
    from agent_node_shape [OF run Some att] obtain cl where
      sh: "lg = (Started aid, st) # lg1 @ cl" "cl = [] \<or> (\<exists>s. cl = [(Cleaned aid, s)])"
      "\<forall>s. out = Node_Blocked s \<longrightarrow> ro = Retry_Blocked s" by blast
    from sh(1,2) nb have "\<forall>x \<in> set lg. \<not> blocks (fst x)" by auto
    moreover from sh(3) nb have "\<forall>s. out \<noteq> Node_Blocked s" by blast
    ultimately show ?thesis by simp
  qed
  show "fst ` set (agent_results (final_state out)) \<subseteq> insert aid (fst ` set (agent_results st))"
    if keeps: ?P
  proof (cases "map_of (agents self) aid")
    case None
    with run show ?thesis by (auto simp: agent_node_unregistered)
  next
    case (Some agent)
    obtain ro ar lg1 where att: "execute_agent_with_retry self aid agent st ?ar0 = (ro, ar, lg1)"
      by (metis prod_cases3)
    from keeps Some
    have "\<forall>n s. agent_results (outcome_state (agent_class.execute agent n s)) = agent_results s"
      by blast
    from attempts_ledger [OF this att [unfolded execute_agent_with_retry_def]]
    have led: "agent_results (retry_state ro) = agent_results st" .
    note sh = agent_node_shape [OF run Some att]
    show ?thesis
    proof (cases ro)
      case (Retry_Blocked s)
      with sh have "out = Node_Blocked s" by blast
      with led Retry_Blocked show ?thesis by auto
    next
      case (Retry_Returned s)
      with sh obtain ar' where "final_state out = s\<lparr> agent_results := AList.update aid ar' (agent_results s) \<rparr>"
        by blast
      with led Retry_Returned show ?thesis by (simp add: dom_update)
    next
      case (Retry_Raised e s)
      with sh obtain e' ar' md where
        "out = Node_Raises e' (s\<lparr> agent_results := AList.update aid ar' (agent_results s),
                                 execution_metadata := md \<rparr>)"
        by blast
      with led Retry_Raised show ?thesis by (simp add: dom_update)
    qed
  qed
qed

lemma ainvoke_Cons_returns:
  "agent_node self a st = (Node_Returns s, lg1) \<Longrightarrow> ainvoke self xs s = (o2, lg2) \<Longrightarrow>
     ainvoke self (a # xs) st = (o2, lg1 @ lg2)"
  by simp

lemma ainvoke_Cons_raises:
  "agent_node self a st = (Node_Raises e s, lg1) \<Longrightarrow>
     ainvoke self (a # xs) st = (Node_Raises e s, lg1)"
  by simp

lemma ainvoke_Cons_blocked:
  "agent_node self a st = (Node_Blocked s, lg1) \<Longrightarrow>
     ainvoke self (a # xs) st = (Node_Blocked s, lg1)"
  by simp

lemma ainvoke_actors:
  "ainvoke self xs st = (out, lg) \<Longrightarrow> \<forall>x \<in> set lg. actor (fst x) \<in> set xs"
proof (induction xs arbitrary: st out lg)
  case Nil
  then show ?case by simp
next
  case (Cons a xs)
  obtain o1 lg1 where n: "agent_node self a st = (o1, lg1)" by (cases "agent_node self a st")
  from agent_node_frame(1) [OF n] have a1: "\<forall>x \<in> set lg1. actor (fst x) = a" .
  show ?case
  proof (cases o1)
    case (Node_Returns s)
    obtain o2 lg2 where r: "ainvoke self xs s = (o2, lg2)" by (cases "ainvoke self xs s")
    from ainvoke_Cons_returns [OF n [unfolded Node_Returns] r] Cons.prems
    have eq: "lg = lg1 @ lg2" by simp
    from Cons.IH [OF r] have "\<forall>x \<in> set lg2. actor (fst x) \<in> set xs" .
    with a1 eq show ?thesis by auto
  next
    case (Node_Raises e s)
    from ainvoke_Cons_raises [OF n [unfolded Node_Raises]] Cons.prems have "lg = lg1" by simp
    with a1 show ?thesis by auto
  next
    case (Node_Blocked s)
    from ainvoke_Cons_blocked [OF n [unfolded Node_Blocked]] Cons.prems have "lg = lg1" by simp
    with a1 show ?thesis by auto
  qed
qed





subsection \<open>Retries\<close>














subsection \<open>The whole-task deadline\<close>

text \<open>A run that a positive deadline does not let end is interrupted in one of its actions.\<close>

lemma deadline_interrupts:
  assumes positive: "0 < t"
    and exceeds: "(\<exists>x \<in> set lg. blocks (fst x)) \<or> t < elapsed lg"
  shows "\<exists>ev st begun rest. (ev, st) \<in> set lg \<and> deadline t 0 lg = (Inr (ev, st), begun)
           \<and> lg = begun @ rest"
proof -
  have "(\<exists>x \<in> set lg. blocks (fst x)) \<or> (lg \<noteq> [] \<and> t \<le> 0 + elapsed lg)"
  proof (cases "\<exists>x \<in> set lg. blocks (fst x)")
    case True
    then show ?thesis by simp
  next
    case False
    with exceeds have lt: "t < elapsed lg" by simp
    with positive have "lg \<noteq> []" by (auto simp: elapsed_simps)
    with lt show ?thesis by simp
  qed
  from deadline_exceeded [OF this] obtain x where
    x: "x \<in> set lg" "fst (deadline t 0 lg) = Inr x" ..
  from deadline_begun_prefix [of lg t 0] obtain rest where
    rest: "lg = snd (deadline t 0 lg) @ rest" ..
  obtain ev st where "x = (ev, st)" by (cases x)
  with x rest show ?thesis by (cases "deadline t 0 lg") auto
qed

text \<open>
  The handler of \<^verbatim>\<open>asyncio.TimeoutError\<close> is reached, and writes its marker, when the
  timeout is not positive, and when the steps of the plan have a release hook that
  returns.
\<close>

lemma nonpositive_timeout_reports_task_timeout:
  assumes built: "build_agent_graph lib self agent_sequence = Inr graph"
    and "TaskConfig.timeout (task_config self custom_config) \<le> 0"
  shows "execute_task lib self tid agent_sequence initial_data custom_config
           = (Returned_State (mark_failed ''Task timeout'' (initial_state tid initial_data)), [])"
  using assms by (simp add: execute_task_def wait_for_def)

lemma deadline_in_step_with_cleanup_reports_task_timeout:
  assumes built: "build_agent_graph lib self agent_sequence = Inr graph"
    and run: "ainvoke self graph (initial_state tid initial_data) = (out, lg)"
    and positive: "0 < TaskConfig.timeout (task_config self custom_config)"
    and exceeds: "(\<exists>x \<in> set lg. blocks (fst x))
                  \<or> TaskConfig.timeout (task_config self custom_config) < elapsed lg"
    and hooks: "\<forall>a \<in> set agent_sequence. \<forall>agent.
                  map_of (agents self) a = Some agent \<longrightarrow> agent_class.cleanup agent = Hook Hook_Returns"
  shows "\<exists>begun. execute_task lib self tid agent_sequence initial_data custom_config
           = (Returned_State (mark_failed ''Task timeout'' (initial_state tid initial_data)), begun)"
proof -
  let ?t = "TaskConfig.timeout (task_config self custom_config)"
  let ?st0 = "initial_state tid initial_data"
  from build_agent_graph_Inr [OF built] have g: "graph = agent_sequence"
    and registered: "\<forall>a \<in> set agent_sequence. a \<in> fst ` set (agents self)" .
  from deadline_interrupts [OF positive exceeds] obtain ev st begun rest where
    mem: "(ev, st) \<in> set lg" and dl: "deadline ?t 0 lg = (Inr (ev, st), begun)" by blast
  from ainvoke_actors [OF run] mem g have a: "actor ev \<in> set agent_sequence" by fastforce
  with registered have "map_of (agents self) (actor ev) \<noteq> None"
    by (simp add: map_of_eq_None_iff)
  then obtain agent where agent: "map_of (agents self) (actor ev) = Some agent" by blast
  with hooks a have hook: "agent_class.cleanup agent = Hook Hook_Returns" by blast
  from agent hook have "cancel_node self ev st = (None, [(Cleaned (actor ev), st)])"
    by (simp add: cancel_node_def)
  with dl positive run have "wait_for self ?t (ainvoke self graph ?st0)
                               = (TimeoutError, begun @ [(Cleaned (actor ev), st)])"
    by (simp add: wait_for_def)
  with built show ?thesis by (simp add: execute_task_def)
qed

text \<open>
  Claim C5 says that a task whose run exceeds the whole-task timeout comes back with
  status \<^verbatim>\<open>FAILED\<close> and the error marker \<^verbatim>\<open>Task timeout\<close>. \<^verbatim>\<open>execute_task\<close> has the
  handler that writes the marker, and it is reached when the node cancelled by the
  deadline lets the cancellation through. But the cancelled node runs its \<^verbatim>\<open>finally\<close>
  clause, which calls \<^verbatim>\<open>agent.cleanup()\<close>, and \<^verbatim>\<open>BaseAgent\<close> defines no such method
  and no step of the repository adds one: the clause raises \<^verbatim>\<open>AttributeError\<close>, which
  comes out of the run in place of the cancellation and reaches the general handler.
  For a plan whose step classes have no hook, a run that exceeds a positive timeout ends
  \<^verbatim>\<open>FAILED\<close> with the text of that \<^verbatim>\<open>AttributeError\<close> as its error, and not the
  marker. The value is returned, and the actions that began are an initial part of the
  run.
\<close>

theorem deadline_in_step_without_cleanup_loses_timeout_marker:
  assumes built: "build_agent_graph lib self agent_sequence = Inr graph"
    and run: "ainvoke self graph (initial_state tid initial_data) = (out, lg)"
    and positive: "0 < TaskConfig.timeout (task_config self custom_config)"
    and exceeds: "(\<exists>x \<in> set lg. blocks (fst x))
                  \<or> TaskConfig.timeout (task_config self custom_config) < elapsed lg"
    and no_hook: "\<forall>a \<in> set agent_sequence. \<forall>agent.
                    map_of (agents self) a = Some agent \<longrightarrow> agent_class.cleanup agent = No_Hook"
  shows "\<exists>a agent msg begun rest.
           a \<in> set agent_sequence
           \<and> map_of (agents self) a = Some agent
           \<and> msg = [CHR 0x27] @ class_name agent @ [CHR 0x27] @ '' object has no attribute ''
                     @ [CHR 0x27] @ ''cleanup'' @ [CHR 0x27]
           \<and> execute_task lib self tid agent_sequence initial_data custom_config
               = (Returned_State (mark_failed msg (initial_state tid initial_data)), begun)
           \<and> lg = begun @ rest
           \<and> map_of (execution_metadata (mark_failed msg (initial_state tid initial_data))) ''status''
               = Some (Meta_Status Task_FAILED)
           \<and> map_of (execution_metadata (mark_failed msg (initial_state tid initial_data))) ''error''
               = Some (Meta_Str msg)
           \<and> msg \<noteq> ''Task timeout''"
proof -
  let ?t = "TaskConfig.timeout (task_config self custom_config)"
  let ?st0 = "initial_state tid initial_data"
  from build_agent_graph_Inr [OF built] have g: "graph = agent_sequence"
    and registered: "\<forall>a \<in> set agent_sequence. a \<in> fst ` set (agents self)" .
  from deadline_interrupts [OF positive exceeds] obtain ev st begun rest where
    mem: "(ev, st) \<in> set lg" and dl: "deadline ?t 0 lg = (Inr (ev, st), begun)"
    and prefix: "lg = begun @ rest" by blast
  from ainvoke_actors [OF run] mem g have a: "actor ev \<in> set agent_sequence" by fastforce
  with registered have "map_of (agents self) (actor ev) \<noteq> None"
    by (simp add: map_of_eq_None_iff)
  then obtain agent where agent: "map_of (agents self) (actor ev) = Some agent" by blast
  with no_hook a have hook: "agent_class.cleanup agent = No_Hook" by blast
  define msg where "msg = [CHR 0x27] @ class_name agent @ [CHR 0x27] @ '' object has no attribute ''
                            @ [CHR 0x27] @ ''cleanup'' @ [CHR 0x27]"
  from agent hook have "cancel_node self ev st = (Some (AttributeError msg), [])"
    by (simp add: cancel_node_def msg_def)
  with dl positive run have "wait_for self ?t (ainvoke self graph ?st0)
                               = (Run_Raised (AttributeError msg), begun)"
    by (simp add: wait_for_def)
  with built have task: "execute_task lib self tid agent_sequence initial_data custom_config
                           = (Returned_State (mark_failed msg ?st0), begun)"
    by (simp add: execute_task_def)
  have differs: "msg \<noteq> ''Task timeout''" by (simp add: msg_def)
  from a agent msg_def task prefix differs mark_failed_lookup(1,2) [of msg ?st0]
  show ?thesis by blast
qed

theorem deadline_in_step_without_cleanup_loses_timeout_marker_witness:
  "build_agent_graph demo_graphlib demo_reporting [''report_generator''] = Inr [''report_generator'']
   \<and> 0 < TaskConfig.timeout
           (task_config demo_reporting (Some (demo_task_config\<lparr> TaskConfig.timeout := 5 / 100 \<rparr>)))
   \<and> TaskConfig.timeout
         (task_config demo_reporting (Some (demo_task_config\<lparr> TaskConfig.timeout := 5 / 100 \<rparr>)))
       < elapsed (snd (ainvoke demo_reporting [''report_generator''] (initial_state ''t1'' None)))
   \<and> map_of (agents demo_reporting) ''report_generator'' = Some report_generator
   \<and> agent_class.cleanup report_generator = No_Hook
   \<and> execute_task demo_graphlib demo_reporting ''t1'' [''report_generator''] None
         (Some (demo_task_config\<lparr> TaskConfig.timeout := 5 / 100 \<rparr>)) =
       (Returned_State
          \<lparr> AgentState.task_id = ''t1'', agent_results = [], shared_data = [],
            execution_metadata =
              [(''error'', Meta_Str ([CHR 0x27] @ ''ReportGenerationAgent'' @ [CHR 0x27]
                  @ '' object has no attribute '' @ [CHR 0x27] @ ''cleanup'' @ [CHR 0x27])),
               (''status'', Meta_Status Task_FAILED)] \<rparr>,
        [(Started ''report_generator'', initial_state ''t1'' None),
         (Executed ''report_generator'' 0 (2 / 10), initial_state ''t1'' None)])
   \<and> (\<exists>agent msg begun.
         map_of (agents demo_reporting) ''report_generator'' = Some agent
         \<and> execute_task demo_graphlib demo_reporting ''t1'' [''report_generator''] None
               (Some (demo_task_config\<lparr> TaskConfig.timeout := 5 / 100 \<rparr>))
             = (Returned_State (mark_failed msg (initial_state ''t1'' None)), begun)
         \<and> map_of (execution_metadata (mark_failed msg (initial_state ''t1'' None :: nat AgentState)))
               ''error'' = Some (Meta_Str msg)
         \<and> msg \<noteq> ''Task timeout'')"
proof -
  let ?cc = "Some (demo_task_config\<lparr> TaskConfig.timeout := 5 / 100 \<rparr>)"
  let ?st0 = "initial_state ''t1'' None :: nat AgentState"
  let ?run = "ainvoke demo_reporting [''report_generator''] ?st0"
  have agents: "agents demo_reporting = [(''report_generator'', report_generator)]"
    by (simp add: demo_reporting_def register_agent_def)
  have built: "build_agent_graph demo_graphlib demo_reporting [''report_generator'']
                 = Inr [''report_generator'']"
    by (simp add: build_agent_graph_def agents demo_graphlib_def)
  have run: "?run = (fst ?run, snd ?run)" by simp
  have positive: "0 < TaskConfig.timeout (task_config demo_reporting ?cc)"
    by (simp add: task_config_def)
  have late: "TaskConfig.timeout (task_config demo_reporting ?cc) < elapsed (snd ?run)"
    by (simp add: engine_defs demo_reporting_def demo_task_config_def report_generator_def)
  then have exceeds: "(\<exists>x \<in> set (snd ?run). blocks (fst x))
                        \<or> TaskConfig.timeout (task_config demo_reporting ?cc) < elapsed (snd ?run)"
    by simp
  have reg: "map_of (agents demo_reporting) ''report_generator'' = Some report_generator"
    by (simp add: agents)
  have hook: "agent_class.cleanup report_generator = No_Hook" by (simp add: report_generator_def)
  from reg hook
  have no_hook: "\<forall>a \<in> set [''report_generator'']. \<forall>agent.
                   map_of (agents demo_reporting) a = Some agent \<longrightarrow> agent_class.cleanup agent = No_Hook"
    by simp
  have task: "execute_task demo_graphlib demo_reporting ''t1'' [''report_generator''] None ?cc =
       (Returned_State
          \<lparr> AgentState.task_id = ''t1'', agent_results = [], shared_data = [],
            execution_metadata =
              [(''error'', Meta_Str ([CHR 0x27] @ ''ReportGenerationAgent'' @ [CHR 0x27]
                  @ '' object has no attribute '' @ [CHR 0x27] @ ''cleanup'' @ [CHR 0x27])),
               (''status'', Meta_Status Task_FAILED)] \<rparr>,
        [(Started ''report_generator'', ?st0), (Executed ''report_generator'' 0 (2 / 10), ?st0)])"
    by (simp add: engine_defs demo_reporting_def demo_task_config_def report_generator_def
          demo_graphlib_def)
  from deadline_in_step_without_cleanup_loses_timeout_marker
         [OF built run positive exceeds no_hook]
  have "\<exists>agent msg begun.
         map_of (agents demo_reporting) ''report_generator'' = Some agent
         \<and> execute_task demo_graphlib demo_reporting ''t1'' [''report_generator''] None ?cc
             = (Returned_State (mark_failed msg ?st0), begun)
         \<and> map_of (execution_metadata (mark_failed msg ?st0)) ''error'' = Some (Meta_Str msg)
         \<and> msg \<noteq> ''Task timeout''"
    by fastforce
  with built positive late reg hook task show ?thesis by blast
qed

subsection \<open>The release hook of a step\<close>

text \<open>
  Claim C7 says that the engine invokes a step's release hook once after its final
  attempt on every exit path, and that this does not turn a successful step into a
  failure. The node does call \<^verbatim>\<open>agent.cleanup()\<close> in its \<^verbatim>\<open>finally\<close> clause, but
  \<^verbatim>\<open>BaseAgent\<close> defines no such method and no step of the repository adds one. For a
  step class without the hook whose first attempt returns, the node records the outcome
  as \<^verbatim>\<open>completed\<close> and then raises \<^verbatim>\<open>AttributeError\<close>: no hook has been invoked, and
  the task ends \<^verbatim>\<open>FAILED\<close>.
\<close>

theorem missing_cleanup_hook_fails_completed_step:
  assumes retries: "0 \<le> TaskConfig.max_retries (AgentOrchestrator.config self)"
    and slots: "0 < concurrent_agents (AgentOrchestrator.config self)"
    and reg: "map_of (agents self) aid = Some agent"
    and no_hook: "agent_class.cleanup agent = No_Hook"
    and ok: "agent_class.execute agent 0 st = Returns d rs"
  shows "agent_node self aid st =
           (Node_Raises
              (AttributeError ([CHR 0x27] @ class_name agent @ [CHR 0x27]
                 @ '' object has no attribute '' @ [CHR 0x27] @ ''cleanup'' @ [CHR 0x27]))
              (rs\<lparr> agent_results := AList.update aid
                     \<lparr> AgentResult.agent_id = aid, task_id = AgentState.task_id st,
                       status = Agent_COMPLETED,
                       result = map_of (shared_data rs) (aid @ ''_result''),
                       error = None, execution_time = max 0 d, retry_count = 0, metadata = None \<rparr>
                     (agent_results rs) \<rparr>),
            [(Started aid, st), (Executed aid 0 d, st)])"
proof -
  let ?cfg = "AgentOrchestrator.config self"
  from retries have range: "[0 ..< nat (TaskConfig.max_retries ?cfg + 1)]
                              = 0 # [Suc 0 ..< nat (TaskConfig.max_retries ?cfg + 1)]"
    by (simp add: upt_conv_Cons)
  show ?thesis
    unfolding agent_node_def execute_agent_with_retry_def range
    using reg no_hook ok slots by (simp add: finally_cleanup_def elapsed_def)
qed

theorem missing_cleanup_hook_fails_completed_step_witness:
  "0 \<le> TaskConfig.max_retries (AgentOrchestrator.config demo_orchestrator)
   \<and> 0 < concurrent_agents (AgentOrchestrator.config demo_orchestrator)
   \<and> map_of (agents demo_orchestrator) ''data_analyzer'' = Some data_analyzer
   \<and> agent_class.cleanup data_analyzer = No_Hook
   \<and> fst (agent_node demo_orchestrator ''data_analyzer'' (initial_state ''t1'' None)) =
       Node_Raises
         (AttributeError ([CHR 0x27] @ ''DataAnalysisAgent'' @ [CHR 0x27]
            @ '' object has no attribute '' @ [CHR 0x27] @ ''cleanup'' @ [CHR 0x27]))
         \<lparr> AgentState.task_id = ''t1'',
           agent_results =
             [(''data_analyzer'',
               \<lparr> AgentResult.agent_id = ''data_analyzer'', task_id = ''t1'',
                 status = Agent_COMPLETED, result = Some 5, error = None,
                 execution_time = 1 / 100, retry_count = 0, metadata = None \<rparr>)],
           shared_data = [(''data_analyzer_result'', 5), (''analysis_complete'', 1)],
           execution_metadata = [] \<rparr>
   \<and> execute_task demo_graphlib demo_orchestrator ''t1'' [''data_analyzer''] None None =
       (Returned_State
          \<lparr> AgentState.task_id = ''t1'', agent_results = [], shared_data = [],
            execution_metadata =
              [(''error'', Meta_Str ([CHR 0x27] @ ''DataAnalysisAgent'' @ [CHR 0x27]
                  @ '' object has no attribute '' @ [CHR 0x27] @ ''cleanup'' @ [CHR 0x27])),
               (''status'', Meta_Status Task_FAILED)] \<rparr>,
        [(Started ''data_analyzer'', initial_state ''t1'' None),
         (Executed ''data_analyzer'' 0 (1 / 100), initial_state ''t1'' None)])"
proof -
  let ?st0 = "initial_state ''t1'' None :: nat AgentState"
  have h1: "0 \<le> TaskConfig.max_retries (AgentOrchestrator.config demo_orchestrator)"
    by (simp add: engine_defs engine_demo_defs)
  have h2: "0 < concurrent_agents (AgentOrchestrator.config demo_orchestrator)"
    by (simp add: engine_defs engine_demo_defs)
  have h3: "map_of (agents demo_orchestrator) ''data_analyzer'' = Some data_analyzer"
    by (simp add: demo_orchestrator_def register_agent_def)
  have h4: "agent_class.cleanup data_analyzer = No_Hook" by (simp add: data_analyzer_def)
  have h5: "agent_class.execute data_analyzer 0 ?st0 =
              Returns (1 / 100)
                (?st0\<lparr> shared_data := AList.update ''analysis_complete'' 1
                          (AList.update ''data_analyzer_result'' 5 (shared_data ?st0)) \<rparr>)"
    by (simp add: data_analyzer_def)
  have task: "execute_task demo_graphlib demo_orchestrator ''t1'' [''data_analyzer''] None None =
       (Returned_State
          \<lparr> AgentState.task_id = ''t1'', agent_results = [], shared_data = [],
            execution_metadata =
              [(''error'', Meta_Str ([CHR 0x27] @ ''DataAnalysisAgent'' @ [CHR 0x27]
                  @ '' object has no attribute '' @ [CHR 0x27] @ ''cleanup'' @ [CHR 0x27])),
               (''status'', Meta_Status Task_FAILED)] \<rparr>,
        [(Started ''data_analyzer'', ?st0), (Executed ''data_analyzer'' 0 (1 / 100), ?st0)])"
    by (simp add: engine_defs engine_demo_defs demo_graphlib_def)
  from missing_cleanup_hook_fails_completed_step [OF h1 h2 h3 h4 h5]
  have "fst (agent_node demo_orchestrator ''data_analyzer'' ?st0) =
       Node_Raises
         (AttributeError ([CHR 0x27] @ ''DataAnalysisAgent'' @ [CHR 0x27]
            @ '' object has no attribute '' @ [CHR 0x27] @ ''cleanup'' @ [CHR 0x27]))
         \<lparr> AgentState.task_id = ''t1'',
           agent_results =
             [(''data_analyzer'',
               \<lparr> AgentResult.agent_id = ''data_analyzer'', task_id = ''t1'',
                 status = Agent_COMPLETED, result = Some 5, error = None,
                 execution_time = 1 / 100, retry_count = 0, metadata = None \<rparr>)],
           shared_data = [(''data_analyzer_result'', 5), (''analysis_complete'', 1)],
           execution_metadata = [] \<rparr>"
    by (simp add: initial_state_def data_analyzer_def)
  with h1 h2 h3 h4 task show ?thesis by simp
qed

end
